theory Spec2Isabelle
  imports Complex_Main "HOL-Library.AList"
begin

section \<open>Service A: request metrics middleware and exposition\<close>

text \<open>
  A shallow embedding of \<^verbatim>\<open>applications/python/service-a/main.py\<close>: a FastAPI
  application with one HTTP middleware that records a counter, a histogram and a summary
  per request, and nine routes, one of which exposes the metrics.

  The program keeps its state in module-level objects and reads the wall clock; the model
  threads a \<open>world\<close> record through every function. Numbers that are Python floats
  (timestamps, durations, metric values, bucket bounds) are rationals here: a float
  literal is the rational its double is, and arithmetic is exact. Strings are byte lists; the three
  non-ASCII characters of the source are written as their UTF-8 bytes.
\<close>

subsection \<open>Requests, responses, outcomes\<close>

text \<open>The two attributes of \<^verbatim>\<open>Request\<close> that the program reads:
  \<^verbatim>\<open>request.method\<close> (the field \<open>req_method\<close>) and \<^verbatim>\<open>request.url.path\<close>.\<close>

record request =
  req_method :: string
  path :: string

datatype jvalue = JStr string | JInt int

text \<open>A response body: the dict given to \<^verbatim>\<open>JSONResponse\<close> (keys in source
  order), or the text given to \<^verbatim>\<open>PlainTextResponse\<close> and \<^verbatim>\<open>Response\<close>.\<close>

datatype body = JsonBody "(string \<times> jvalue) list" | TextBody string

record response =
  status_code :: int
  media_type :: string
  content :: body

text \<open>A Python exception, by its description.\<close>

datatype exn = Exn string

text \<open>What a call of a handler comes to: it returns a response, it raises, or it ends
  the process (\<^verbatim>\<open>os._exit\<close>), after which nothing runs.\<close>

datatype outcome = Returned response | Raised exn | Exited

text \<open>The response classes of the framework, with their default status 200 and their
  class media types.\<close>

definition JSONResponse :: "int \<Rightarrow> (string \<times> jvalue) list \<Rightarrow> response" where
  "JSONResponse sc d = \<lparr>status_code = sc, media_type = ''application/json'', content = JsonBody d\<rparr>"

definition PlainTextResponse :: "string \<Rightarrow> response" where
  "PlainTextResponse t = \<lparr>status_code = 200, media_type = ''text/plain'', content = TextBody t\<rparr>"

definition Response :: "string \<Rightarrow> string \<Rightarrow> response" where
  "Response c mt = \<lparr>status_code = 200, media_type = mt, content = TextBody c\<rparr>"

subsection \<open>Python's \<^verbatim>\<open>str\<close> on integers\<close>

text \<open>\<open>digit\<close> is only applied below ten.\<close>

definition digit :: "nat \<Rightarrow> char" where
  "digit d = ''0123456789'' ! d"

function str_nat :: "nat \<Rightarrow> string" where
  "str_nat n = (if n < 10 then [digit n] else str_nat (n div 10) @ [digit (n mod 10)])"
  by pat_completeness auto
termination
  by (relation "measure (\<lambda>n. n)") auto

definition str :: "int \<Rightarrow> string" where
  "str i = (if i < 0 then CHR ''-'' # str_nat (nat (- i)) else str_nat (nat i))"

subsection \<open>The metric registry\<close>

text \<open>A label instance: one value for each declared label name, in declaration order.\<close>

type_synonym label_values = "string list"

text \<open>Each metric keeps the state of its label instances in first-use order.\<close>

type_synonym counter = "(label_values \<times> rat) list"

record hist_child =
  bucket_counts :: "nat list"
  hist_sum :: rat
  hist_count :: nat

type_synonym histogram = "(label_values \<times> hist_child) list"

record summary_child =
  summary_sum :: rat
  summary_count :: nat

type_synonym summary = "(label_values \<times> summary_child) list"

type_synonym gauge = "(label_values \<times> rat) list"

text \<open>The four module-level metrics of the source (lines 41 to 64).\<close>

record registry =
  http_request_counter :: counter
  request_duration_histogram :: histogram
  request_duration_summary :: summary
  gauge :: gauge

definition initial_registry :: registry where
  "initial_registry = \<lparr>http_request_counter = [], request_duration_histogram = [],
     request_duration_summary = [], gauge = []\<rparr>"

text \<open>\<^verbatim>\<open>buckets=(0.1, 0.5, 1, 5, 10)\<close>. The double of the literal
  \<^verbatim>\<open>0.1\<close> is \<open>3602879701896397 / 2 ^ 55\<close>; the other four literals are exact.\<close>

definition buckets :: "rat list" where
  "buckets = [3602879701896397 / 36028797018963968, 1 / 2, 1, 5, 10]"

subsubsection \<open>Counter\<close>

definition counter_value :: "counter \<Rightarrow> label_values \<Rightarrow> rat" where
  "counter_value c ls = (case map_of c ls of None \<Rightarrow> 0 | Some v \<Rightarrow> v)"

definition counter_add :: "counter \<Rightarrow> label_values \<Rightarrow> rat \<Rightarrow> counter" where
  "counter_add c ls v = AList.update ls (counter_value c ls + v) c"

text \<open>Modelled from the spec: \<^verbatim>\<open>observe\<close> on a Counter; the class
  \<^verbatim>\<open>Counter\<close> belongs to the package \<^verbatim>\<open>prometheus_client\<close>, which is not
  part of the source tree. "For Counter, value must be \<open>\<ge> 0\<close> and is added to the running
  total."\<close>

definition counter_observe :: "counter \<Rightarrow> label_values \<Rightarrow> rat \<Rightarrow> exn + counter" where
  "counter_observe c ls v =
     (if v < 0 then Inl (Exn ''counter value must be non-negative'')
      else Inr (counter_add c ls v))"

text \<open>Modelled from the spec: \<^verbatim>\<open>.labels(...).inc()\<close>, the Counter increment,
  is the observation of the value 1.\<close>

definition inc :: "counter \<Rightarrow> label_values \<Rightarrow> counter" where
  "inc c ls = counter_add c ls 1"

fun counter_observe_all :: "counter \<Rightarrow> (label_values \<times> rat) list \<Rightarrow> exn + counter" where
  "counter_observe_all c [] = Inr c"
| "counter_observe_all c ((ls, v) # os) =
     (case counter_observe c ls v of
        Inl e \<Rightarrow> Inl e
      | Inr c' \<Rightarrow> counter_observe_all c' os)"

text \<open>The values recorded against one label instance, in order.\<close>

definition recorded :: "label_values \<Rightarrow> (label_values \<times> 'v) list \<Rightarrow> 'v list" where
  "recorded ls os = map snd (filter (\<lambda>p. fst p = ls) os)"

subsubsection \<open>Histogram\<close>

text \<open>Modelled from the spec: \<^verbatim>\<open>observe\<close> on a Histogram (class
  \<^verbatim>\<open>Histogram\<close> of \<^verbatim>\<open>prometheus_client\<close>, not part of the source tree). "The
  value is placed into the bucket whose upper bound is the smallest bound \<open>\<ge>\<close> value (plus
  one overflow +Inf bucket), and running sum/count are updated." The buckets are numbered
  in the order of their bounds, the +Inf bucket last; \<open>bucket_index\<close> walks the bounds
  and stops at the first one that is not below the value.\<close>

fun bucket_index :: "rat list \<Rightarrow> rat \<Rightarrow> nat" where
  "bucket_index [] v = 0"
| "bucket_index (b # bs) v = (if v \<le> b then 0 else Suc (bucket_index bs v))"

definition hist_empty :: "rat list \<Rightarrow> hist_child" where
  "hist_empty bs = \<lparr>bucket_counts = replicate (Suc (length bs)) 0, hist_sum = 0, hist_count = 0\<rparr>"

definition hist_child_observe :: "rat list \<Rightarrow> hist_child \<Rightarrow> rat \<Rightarrow> hist_child" where
  "hist_child_observe bs h v =
     (let i = bucket_index bs v
      in \<lparr>bucket_counts = (bucket_counts h)[i := Suc (bucket_counts h ! i)],
          hist_sum = hist_sum h + v,
          hist_count = Suc (hist_count h)\<rparr>)"

definition hist_child_at :: "histogram \<Rightarrow> label_values \<Rightarrow> hist_child" where
  "hist_child_at h ls = (case map_of h ls of None \<Rightarrow> hist_empty buckets | Some c \<Rightarrow> c)"

definition histogram_observe :: "histogram \<Rightarrow> label_values \<Rightarrow> rat \<Rightarrow> histogram" where
  "histogram_observe h ls v = AList.update ls (hist_child_observe buckets (hist_child_at h ls) v) h"

fun histogram_observe_all :: "histogram \<Rightarrow> (label_values \<times> rat) list \<Rightarrow> histogram" where
  "histogram_observe_all h [] = h"
| "histogram_observe_all h ((ls, v) # os) = histogram_observe_all (histogram_observe h ls v) os"

text \<open>Modelled from the spec: the exposition reports cumulative counts, one per bucket
  in the order of the bounds, the +Inf bucket last.\<close>

fun cumulative_from :: "nat \<Rightarrow> nat list \<Rightarrow> nat list" where
  "cumulative_from acc [] = []"
| "cumulative_from acc (c # cs) = (acc + c) # cumulative_from (acc + c) cs"

definition cumulative_counts :: "hist_child \<Rightarrow> nat list" where
  "cumulative_counts h = cumulative_from 0 (bucket_counts h)"

text \<open>The state of one label instance after a sequence of observations on a histogram
  that starts empty, as \<open>request_duration_histogram\<close> does.\<close>

definition observed_child :: "(label_values \<times> rat) list \<Rightarrow> label_values \<Rightarrow> hist_child" where
  "observed_child os ls = hist_child_at (histogram_observe_all [] os) ls"

subsubsection \<open>Summary and Gauge\<close>

text \<open>Modelled from the spec: \<^verbatim>\<open>observe\<close> on a Summary (class \<^verbatim>\<open>Summary\<close>
  of \<^verbatim>\<open>prometheus_client\<close>). "For Summary, running sum/count are updated."\<close>

definition summary_child_at :: "summary \<Rightarrow> label_values \<Rightarrow> summary_child" where
  "summary_child_at s ls =
     (case map_of s ls of None \<Rightarrow> \<lparr>summary_sum = 0, summary_count = 0\<rparr> | Some c \<Rightarrow> c)"

definition summary_observe :: "summary \<Rightarrow> label_values \<Rightarrow> rat \<Rightarrow> summary" where
  "summary_observe s ls v =
     (let c = summary_child_at s ls
      in AList.update ls \<lparr>summary_sum = summary_sum c + v, summary_count = Suc (summary_count c)\<rparr> s)"

text \<open>Modelled from the spec: \<^verbatim>\<open>observe\<close> on a Gauge (class \<^verbatim>\<open>Gauge\<close> of
  \<^verbatim>\<open>prometheus_client\<close>). "For Gauge, value replaces the current value."\<close>

definition gauge_set :: "gauge \<Rightarrow> label_values \<Rightarrow> rat \<Rightarrow> gauge" where
  "gauge_set g ls v = AList.update ls v g"

subsection \<open>The world: module state, clock, environment\<close>

text \<open>
  Everything the program reads or changes outside its arguments: the registry, the wall
  clock (\<^verbatim>\<open>time.time()\<close>: the readings in call order, and how many have been
  taken), the clock of the gauge's timer (which is not \<^verbatim>\<open>time.time()\<close>: the
  program never calls that outside the middleware), the sibling service (what the n-th outbound \<^verbatim>\<open>requests.get\<close> comes to), and
  the messages given to the logger, each with its level.
\<close>

record world =
  registry :: registry
  time_source :: "nat \<Rightarrow> rat"
  time_reads :: nat
  timer_source :: "nat \<Rightarrow> rat"
  timer_reads :: nat
  service_b :: "nat \<Rightarrow> exn + string"
  service_b_calls :: nat
  log :: "(string \<times> string) list"

type_synonym handler = "world \<Rightarrow> request \<Rightarrow> outcome \<times> world"

definition initial_world :: "(nat \<Rightarrow> rat) \<Rightarrow> (nat \<Rightarrow> rat) \<Rightarrow> (nat \<Rightarrow> exn + string) \<Rightarrow> world" where
  "initial_world ts tm sb = \<lparr>registry = initial_registry, time_source = ts, time_reads = 0,
     timer_source = tm, timer_reads = 0, service_b = sb, service_b_calls = 0, log = []\<rparr>"

definition time_time :: "world \<Rightarrow> rat \<times> world" where
  "time_time w = (time_source w (time_reads w), w\<lparr>time_reads := Suc (time_reads w)\<rparr>)"

definition default_timer :: "world \<Rightarrow> rat \<times> world" where
  "default_timer w = (timer_source w (timer_reads w), w\<lparr>timer_reads := Suc (timer_reads w)\<rparr>)"

definition requests_get :: "world \<Rightarrow> (exn + string) \<times> world" where
  "requests_get w = (service_b w (service_b_calls w), w\<lparr>service_b_calls := Suc (service_b_calls w)\<rparr>)"

definition logger :: "string \<Rightarrow> string \<Rightarrow> world \<Rightarrow> world" where
  "logger level msg w = w\<lparr>log := log w @ [(level, msg)]\<rparr>"

definition logging_example :: "world \<Rightarrow> world" where
  "logging_example w =
     logger ''INFO'' ''This is just for testing''
       (logger ''INFO'' ''Please have a look''
         (logger ''INFO'' ''Here are the logs'' w))"

subsection \<open>The middleware\<close>

text \<open>
  \<^verbatim>\<open>prometheus_middleware(request, call_next)\<close>, lines 69 to 83. There is no
  \<^verbatim>\<open>try\<close> around \<^verbatim>\<open>call_next\<close>: when the handler raises or ends the process,
  the statements after the call do not run. \<^verbatim>\<open>labels\<close> takes the label values as
  strings, so the integer status code goes through \<open>str\<close>.
\<close>

definition prometheus_middleware :: "handler \<Rightarrow> handler" where
  "prometheus_middleware call_next w request =
     (let (start_time, w1) = time_time w
      in case call_next w1 request of
           (Returned response, w2) \<Rightarrow>
             (let (now, w3) = time_time w2;
                  duration = now - start_time;
                  labels = [req_method request, path request, str (status_code response)];
                  r0 = registry w3;
                  r1 = r0\<lparr>http_request_counter := inc (http_request_counter r0) labels\<rparr>;
                  r2 = r1\<lparr>request_duration_histogram :=
                         histogram_observe (request_duration_histogram r1) labels duration\<rparr>;
                  r3 = r2\<lparr>request_duration_summary :=
                         summary_observe (request_duration_summary r2) labels duration\<rparr>
              in (Returned response, w3\<lparr>registry := r3\<rparr>))
         | (Raised e, w2) \<Rightarrow> (Raised e, w2)
         | (Exited, w2) \<Rightarrow> (Exited, w2))"

subsection \<open>The routes\<close>

text \<open>A route function that returns a dict is answered by the framework with a JSON
  response of status 200.\<close>

definition root :: "world \<Rightarrow> outcome \<times> world" where
  "root w =
     (Returned (JSONResponse 200
        [(''status'', JStr ([CHR 0xF0, CHR 0x9F, CHR 0x8F, CHR 0x83] @ ''- Running''))]), w)"

definition healthy :: "world \<Rightarrow> outcome \<times> world" where
  "healthy w =
     (Returned (JSONResponse 200
        [(''name'', JStr ([CHR 0xF0, CHR 0x9F, CHR 0x91, CHR 0x80] @ '' - Observability '' @
                          [CHR 0xF0, CHR 0x9F, CHR 0x94, CHR 0xA5] @ '' - Abhishek Veeramalla'')),
         (''status'', JStr ''healthy'')]), w)"

definition server_error :: "world \<Rightarrow> outcome \<times> world" where
  "server_error w =
     (Returned (JSONResponse 500
        [(''error'', JStr ''Internal server error''), (''statusCode'', JInt 500)]), w)"

definition not_found :: "world \<Rightarrow> outcome \<times> world" where
  "not_found w =
     (Returned (JSONResponse 404
        [(''error'', JStr ''Not Found''), (''statusCode'', JInt 404)]), w)"

definition logs :: "world \<Rightarrow> outcome \<times> world" where
  "logs w =
     (Returned (JSONResponse 200 [(''objective'', JStr ''To generate logs'')]), logging_example w)"

definition crash :: "world \<Rightarrow> outcome \<times> world" where
  "crash w = (Exited, logger ''ERROR'' ''Intentionally crashing the server...'' w)"

text \<open>\<^verbatim>\<open>simulate_async_task\<close> sleeps for a random time: it changes nothing but the
  readings of the clocks that follow, which the world already leaves open.\<close>

definition simulate_async_task :: "world \<Rightarrow> world" where
  "simulate_async_task w = w"

text \<open>Modelled from the spec: the timer of \<^verbatim>\<open>gauge.labels(...).time()\<close> (class
  \<^verbatim>\<open>Gauge\<close> of \<^verbatim>\<open>prometheus_client\<close>): a scoped start/stop timing whose
  observation, the time elapsed in the block on the timer's own clock, replaces the value
  of the gauge. The route does not read \<^verbatim>\<open>time.time()\<close>.\<close>

definition example :: "world \<Rightarrow> request \<Rightarrow> outcome \<times> world" where
  "example w request =
     (let (t0, w1) = default_timer w;
          w2 = simulate_async_task w1;
          (t1, w3) = default_timer w2;
          r = registry w3;
          w4 = w3\<lparr>registry := r\<lparr>gauge := gauge_set (gauge r) [req_method request, ''running''] (t1 - t0)\<rparr>\<rparr>
      in (Returned (PlainTextResponse ''Async task completed''), w4))"

text \<open>Modelled from the spec: the constant \<^verbatim>\<open>CONTENT_TYPE_LATEST\<close> of
  \<^verbatim>\<open>prometheus_client\<close>, the canonical content type of the exposition format.\<close>

definition CONTENT_TYPE_LATEST :: string where
  "CONTENT_TYPE_LATEST = ''text/plain; version=0.0.4''"

text \<open>\<^verbatim>\<open>metrics()\<close>, lines 138 to 143. The serializer \<^verbatim>\<open>generate_latest\<close> is a
  function of \<^verbatim>\<open>prometheus_client\<close>; here it is the parameter \<open>gen\<close>, which reads
  the registry and returns the document or raises. The route has no \<^verbatim>\<open>try\<close>.\<close>

definition metrics :: "(registry \<Rightarrow> exn + string) \<Rightarrow> world \<Rightarrow> outcome \<times> world" where
  "metrics gen w =
     (case gen (registry w) of
        Inl e \<Rightarrow> (Raised e, w)
      | Inr doc \<Rightarrow> (Returned (Response doc CONTENT_TYPE_LATEST), w))"

definition call_service_b :: "world \<Rightarrow> outcome \<times> world" where
  "call_service_b w =
     (case requests_get w of
        (Inr text, w1) \<Rightarrow> (Returned (PlainTextResponse (''Service B says: '' @ text)), w1)
      | (Inl (Exn msg), w1) \<Rightarrow>
          (Returned (JSONResponse 500 [(''error'', JStr ''Error communicating with Service B'')]),
           logger ''ERROR'' msg w1))"

text \<open>The routing table that the decorators \<^verbatim>\<open>@app.get(...)\<close> build. What the
  framework answers to a request that matches no route is the parameter \<open>unmatched\<close>.\<close>

definition router :: "(registry \<Rightarrow> exn + string) \<Rightarrow> (request \<Rightarrow> response) \<Rightarrow> handler" where
  "router gen unmatched w request =
     (if req_method request \<noteq> ''GET'' then (Returned (unmatched request), w)
      else if path request = ''/'' then root w
      else if path request = ''/healthy'' then healthy w
      else if path request = ''/serverError'' then server_error w
      else if path request = ''/notFound'' then not_found w
      else if path request = ''/logs'' then logs w
      else if path request = ''/crash'' then crash w
      else if path request = ''/example'' then example w request
      else if path request = ''/metrics'' then metrics gen w
      else if path request = ''/call-service-b'' then call_service_b w
      else (Returned (unmatched request), w))"

definition service_a :: "(registry \<Rightarrow> exn + string) \<Rightarrow> (request \<Rightarrow> response) \<Rightarrow> handler" where
  "service_a gen unmatched = prometheus_middleware (router gen unmatched)"

text \<open>Requests served one after the other. After \<open>Exited\<close> the process is gone and the
  rest of the requests is not served.\<close>

fun serve :: "handler \<Rightarrow> world \<Rightarrow> request list \<Rightarrow> outcome list \<times> world" where
  "serve app w [] = ([], w)"
| "serve app w (r # rs) =
     (case app w r of
        (Exited, w') \<Rightarrow> ([Exited], w')
      | (out, w') \<Rightarrow> (let (outs, w'') = serve app w' rs in (out # outs, w'')))"

text \<open>The label instances of the exchanges that completed, in order.\<close>

fun completed :: "request list \<Rightarrow> outcome list \<Rightarrow> label_values list" where
  "completed (r # rs) (Returned resp # outs) =
     [req_method r, path r, str (status_code resp)] # completed rs outs"
| "completed (r # rs) (out # outs) = completed rs outs"
| "completed rs outs = []"

text \<open>A handler that leaves the three request metrics as they are.\<close>

definition leaves_request_metrics :: "handler \<Rightarrow> bool" where
  "leaves_request_metrics h \<longleftrightarrow>
     (\<forall>w r. http_request_counter (registry (snd (h w r))) = http_request_counter (registry w) \<and>
            request_duration_histogram (registry (snd (h w r))) = request_duration_histogram (registry w) \<and>
            request_duration_summary (registry (snd (h w r))) = request_duration_summary (registry w))"

subsection \<open>The exposition document\<close>

text \<open>Modelled from the spec: the text format of section 6, which the function
  \<^verbatim>\<open>generate_latest\<close> of \<^verbatim>\<open>prometheus_client\<close> produces: per metric a HELP
  line, a TYPE line and one sample line per label instance; for a histogram one
  \<^verbatim>\<open>_bucket\<close> line per bound with the cumulative count, then \<^verbatim>\<open>_sum\<close> and
  \<^verbatim>\<open>_count\<close>; for a summary \<^verbatim>\<open>_sum\<close> and \<^verbatim>\<open>_count\<close>. A whole value
  is written as the integer it is (the spec's scenario shows the count three as 3); how
  any other value is written is not fixed by the spec and is the parameter \<open>fmt\<close>.\<close>

definition quoted :: "string \<Rightarrow> string" where
  "quoted s = CHR 0x22 # s @ [CHR 0x22]"

fun commas :: "string list \<Rightarrow> string" where
  "commas [] = []"
| "commas [x] = x"
| "commas (x # y # zs) = x @ '','' @ commas (y # zs)"

definition sample_line :: "string \<Rightarrow> (string \<times> string) list \<Rightarrow> string \<Rightarrow> string" where
  "sample_line name kvs val =
     name @ ''{'' @ commas (map (\<lambda>(k, v). k @ ''='' @ quoted v) kvs) @ ''} '' @ val"

definition render :: "(rat \<Rightarrow> string) \<Rightarrow> rat \<Rightarrow> string" where
  "render fmt x = (case quotient_of x of (n, d) \<Rightarrow> if d = 1 then str n else fmt x)"

definition help_line :: "string \<Rightarrow> string \<Rightarrow> string" where
  "help_line name help = ''# HELP '' @ name @ '' '' @ help"

definition type_line :: "string \<Rightarrow> string \<Rightarrow> string" where
  "type_line name kind = ''# TYPE '' @ name @ '' '' @ kind"

definition request_labels :: "string list" where
  "request_labels = [''method'', ''path'', ''status_code'']"

definition counter_lines :: "(rat \<Rightarrow> string) \<Rightarrow> counter \<Rightarrow> string list" where
  "counter_lines fmt c =
     help_line ''http_requests_total'' ''Total number of HTTP requests'' #
     type_line ''http_requests_total'' ''counter'' #
     map (\<lambda>(ls, v). sample_line ''http_requests_total'' (zip request_labels ls) (render fmt v)) c"

definition histogram_child_lines :: "(rat \<Rightarrow> string) \<Rightarrow> label_values \<Rightarrow> hist_child \<Rightarrow> string list" where
  "histogram_child_lines fmt ls h =
     map (\<lambda>(le, n). sample_line ''http_request_duration_seconds_bucket''
                      (zip request_labels ls @ [(''le'', le)]) (str_nat n))
         (zip (map (render fmt) buckets @ [''+Inf'']) (cumulative_counts h)) @
     [sample_line ''http_request_duration_seconds_sum'' (zip request_labels ls) (render fmt (hist_sum h)),
      sample_line ''http_request_duration_seconds_count'' (zip request_labels ls) (str_nat (hist_count h))]"

definition histogram_lines :: "(rat \<Rightarrow> string) \<Rightarrow> histogram \<Rightarrow> string list" where
  "histogram_lines fmt h =
     help_line ''http_request_duration_seconds'' ''Duration of HTTP requests in seconds'' #
     type_line ''http_request_duration_seconds'' ''histogram'' #
     concat (map (\<lambda>(ls, c). histogram_child_lines fmt ls c) h)"

definition summary_lines :: "(rat \<Rightarrow> string) \<Rightarrow> summary \<Rightarrow> string list" where
  "summary_lines fmt s =
     help_line ''http_request_duration_summary_seconds'' ''Summary of HTTP request durations'' #
     type_line ''http_request_duration_summary_seconds'' ''summary'' #
     concat (map (\<lambda>(ls, c).
       [sample_line ''http_request_duration_summary_seconds_sum'' (zip request_labels ls)
          (render fmt (summary_sum c)),
        sample_line ''http_request_duration_summary_seconds_count'' (zip request_labels ls)
          (str_nat (summary_count c))]) s)"

definition gauge_lines :: "(rat \<Rightarrow> string) \<Rightarrow> gauge \<Rightarrow> string list" where
  "gauge_lines fmt g =
     help_line ''node_gauge_example'' ''Example gauge tracking async task duration'' #
     type_line ''node_gauge_example'' ''gauge'' #
     map (\<lambda>(ls, v). sample_line ''node_gauge_example'' (zip [''method'', ''status''] ls) (render fmt v)) g"

definition exposition_lines :: "(rat \<Rightarrow> string) \<Rightarrow> registry \<Rightarrow> string list" where
  "exposition_lines fmt r =
     counter_lines fmt (http_request_counter r) @
     histogram_lines fmt (request_duration_histogram r) @
     summary_lines fmt (request_duration_summary r) @
     gauge_lines fmt (gauge r)"

text \<open>The document: every line, each ended by a line feed.\<close>

definition exposition :: "(rat \<Rightarrow> string) \<Rightarrow> registry \<Rightarrow> string" where
  "exposition fmt r = concat (map (\<lambda>l. l @ [CHR 0x0A]) (exposition_lines fmt r))"

definition generate_latest :: "(rat \<Rightarrow> string) \<Rightarrow> registry \<Rightarrow> exn + string" where
  "generate_latest fmt r = Inr (exposition fmt r)"

subsection \<open>Concrete inputs\<close>

text \<open>A request with the method GET, and one concrete environment: a clock that
  advances by a quarter of a second per reading, a timer that advances by half a second
  per reading, a sibling service that answers
  \<^verbatim>\<open>hello\<close>, a framework that answers 404 to what matches no route, a way of
  writing values that are not whole, and a serializer that raises.\<close>

definition GET :: "string \<Rightarrow> request" where
  "GET p = \<lparr>req_method = ''GET'', path = p\<rparr>"

definition sample_clock :: "nat \<Rightarrow> rat" where
  "sample_clock n = of_nat n / 4"

definition sample_timer :: "nat \<Rightarrow> rat" where
  "sample_timer n = of_nat n / 2"

definition sample_service_b :: "nat \<Rightarrow> exn + string" where
  "sample_service_b n = Inr ''hello''"

definition sample_unmatched :: "request \<Rightarrow> response" where
  "sample_unmatched r = JSONResponse 404 [(''detail'', JStr ''Not Found'')]"

definition sample_fmt :: "rat \<Rightarrow> string" where
  "sample_fmt x = (case quotient_of x of (n, d) \<Rightarrow> str n @ ''/'' @ str d)"

definition sample_world :: world where
  "sample_world = initial_world sample_clock sample_timer sample_service_b"

definition failing_serializer :: "registry \<Rightarrow> exn + string" where
  "failing_serializer r = Inl (Exn ''serialization failed'')"

text \<open>The lines of a document: the text between line feeds.\<close>

fun lines_from :: "string \<Rightarrow> string \<Rightarrow> string list" where
  "lines_from cur [] = (if cur = [] then [] else [cur])"
| "lines_from cur (c # cs) =
     (if c = CHR 0x0A then cur # lines_from [] cs else lines_from (cur @ [c]) cs)"

definition lines_of :: "string \<Rightarrow> string list" where
  "lines_of doc = lines_from [] doc"

text \<open>The sample line of the spec's scenarios for the counter
  \<^verbatim>\<open>http_requests_total\<close>, written out character by character: method, path,
  status code and count. \<open>CHR 0x22\<close> is the double quote.\<close>

definition request_counter_line :: "string \<Rightarrow> string \<Rightarrow> string \<Rightarrow> nat \<Rightarrow> string" where
  "request_counter_line m p sc k =
     ''http_requests_total{method='' @ [CHR 0x22] @ m @ [CHR 0x22] @
     '',path='' @ [CHR 0x22] @ p @ [CHR 0x22] @
     '',status_code='' @ [CHR 0x22] @ sc @ [CHR 0x22] @ ''} '' @ str_nat k"

definition healthy_line :: string where
  "healthy_line =
     ''http_requests_total{method='' @ [CHR 0x22] @ ''GET'' @ [CHR 0x22] @
     '',path='' @ [CHR 0x22] @ ''/healthy'' @ [CHR 0x22] @
     '',status_code='' @ [CHR 0x22] @ ''200'' @ [CHR 0x22] @ ''} 3''"

definition not_found_line :: string where
  "not_found_line =
     ''http_requests_total{method='' @ [CHR 0x22] @ ''GET'' @ [CHR 0x22] @
     '',path='' @ [CHR 0x22] @ ''/notFound'' @ [CHR 0x22] @
     '',status_code='' @ [CHR 0x22] @ ''404'' @ [CHR 0x22] @ ''} 1''"

section \<open>Properties of the metrics\<close>

lemma counter_value_add:
  "counter_value (counter_add c ls v) ls' =
     (if ls' = ls then counter_value c ls + v else counter_value c ls')"
  by (simp add: counter_value_def counter_add_def update_conv')

lemma counter_observe_all_sum:
  "\<forall>p \<in> set os. 0 \<le> snd p \<Longrightarrow>
   \<exists>c'. counter_observe_all c os = Inr c' \<and>
        counter_value c' ls = counter_value c ls + sum_list (recorded ls os)"
proof (induction os arbitrary: c)
  case Nil
  show ?case by (simp add: recorded_def)
next
  case (Cons p os)
  obtain l v where p: "p = (l, v)" by (cases p)
  from Cons.prems p have nonneg: "\<not> v < 0" and rest: "\<forall>q \<in> set os. 0 \<le> snd q"
    by auto
  from Cons.IH [OF rest, of "counter_add c l v"]
  obtain c' where run: "counter_observe_all (counter_add c l v) os = Inr c'"
    and val: "counter_value c' ls = counter_value (counter_add c l v) ls + sum_list (recorded ls os)"
    by blast
  have "counter_observe_all c (p # os) = Inr c'"
    using run nonneg by (simp add: p counter_observe_def)
  moreover have "counter_value c' ls = counter_value c ls + sum_list (recorded ls (p # os))"
    using val by (simp add: p counter_value_add recorded_def)
  ultimately show ?case by blast
qed

text \<open>
  Claim C3. Observations with non-negative values on a Counter that starts empty all
  succeed, and the final value of each label instance is the sum of the values recorded
  against that label instance (observations on other label instances may be interleaved).
\<close>

theorem counter_sum_of_recorded:
  "\<forall>p \<in> set os. 0 \<le> snd p \<Longrightarrow>
   \<exists>c'. counter_observe_all [] os = Inr c' \<and> counter_value c' ls = sum_list (recorded ls os)"
  using counter_observe_all_sum [of os "[]" ls] by (simp add: counter_value_def)

theorem counter_sum_of_recorded_witness:
  "(0::rat) \<le> 1 \<and> (0::rat) \<le> 5 / 2 \<and> (0::rat) \<le> 2 \<and>
   (\<exists>c'. counter_observe_all []
            [([''GET'', ''/'', ''200''], 1), ([''GET'', ''/x'', ''404''], 5 / 2),
             ([''GET'', ''/'', ''200''], 2)] = Inr c' \<and>
          counter_value c' [''GET'', ''/'', ''200''] = 3)"
  using counter_sum_of_recorded
    [of "[([''GET'', ''/'', ''200''], 1), ([''GET'', ''/x'', ''404''], 5 / 2),
          ([''GET'', ''/'', ''200''], 2)]" "[''GET'', ''/'', ''200'']"]
  by (simp add: recorded_def)

lemma hist_child_at_observe:
  "hist_child_at (histogram_observe h l v) ls =
     (if ls = l then hist_child_observe buckets (hist_child_at h l) v else hist_child_at h ls)"
  by (simp add: hist_child_at_def histogram_observe_def update_conv')

lemma hist_child_at_observe_all:
  "hist_child_at (histogram_observe_all h os) ls =
     foldl (hist_child_observe buckets) (hist_child_at h ls) (recorded ls os)"
proof (induction os arbitrary: h)
  case Nil
  show ?case by (simp add: recorded_def)
next
  case (Cons p os)
  obtain l v where p: "p = (l, v)" by (cases p)
  show ?case
    by (simp add: p Cons.IH hist_child_at_observe recorded_def)
qed

lemma bucket_index_le: "bucket_index bs v \<le> length bs"
  by (induction bs) auto

lemma bucket_index_below: "j < bucket_index bs v \<Longrightarrow> bs ! j < v"
proof (induction bs arbitrary: j)
  case Nil
  then show ?case by simp
next
  case (Cons b bs)
  then show ?case by (cases j) (auto split: if_splits)
qed

lemma bucket_index_bound: "bucket_index bs v < length bs \<Longrightarrow> v \<le> bs ! bucket_index bs v"
  by (induction bs) auto

lemma bucket_index_smallest:
  assumes "sorted bs" "b \<in> set bs" "v \<le> b"
  shows "bucket_index bs v < length bs \<and> bs ! bucket_index bs v \<le> b"
proof -
  from assms(2) obtain j where j: "j < length bs" "bs ! j = b"
    by (auto simp: in_set_conv_nth)
  have "\<not> j < bucket_index bs v"
    using bucket_index_below [of j bs v] j assms(3) by auto
  then have le: "bucket_index bs v \<le> j" by simp
  with j have "bucket_index bs v < length bs" by simp
  moreover have "bs ! bucket_index bs v \<le> bs ! j"
    using assms(1) le j(1) by (simp add: sorted_nth_mono)
  ultimately show ?thesis using j by simp
qed

lemma bucket_index_le_iff:
  assumes "sorted bs" "i < length bs"
  shows "bucket_index bs v \<le> i \<longleftrightarrow> v \<le> bs ! i"
proof
  assume "bucket_index bs v \<le> i"
  then have lt: "bucket_index bs v < length bs" using assms(2) by simp
  have "v \<le> bs ! bucket_index bs v" by (rule bucket_index_bound [OF lt])
  also have "\<dots> \<le> bs ! i" using assms \<open>bucket_index bs v \<le> i\<close> by (simp add: sorted_nth_mono)
  finally show "v \<le> bs ! i" .
next
  assume "v \<le> bs ! i"
  then show "bucket_index bs v \<le> i"
    using bucket_index_below [of i bs v] by (meson not_le_imp_less not_less)
qed

lemma cumulative_from_length: "length (cumulative_from acc cs) = length cs"
  by (induction cs arbitrary: acc) auto

lemma cumulative_from_nth:
  "i < length cs \<Longrightarrow> cumulative_from acc cs ! i = acc + sum_list (take (Suc i) cs)"
proof (induction cs arbitrary: acc i)
  case Nil
  then show ?case by simp
next
  case (Cons c cs)
  then show ?case by (cases i) auto
qed

lemma cumulative_from_ge: "x \<in> set (cumulative_from acc cs) \<Longrightarrow> acc \<le> x"
proof (induction cs arbitrary: acc)
  case Nil
  then show ?case by simp
next
  case (Cons c cs)
  then show ?case by fastforce
qed

lemma cumulative_from_sorted: "sorted (cumulative_from acc cs)"
proof (induction cs arbitrary: acc)
  case Nil
  show ?case by simp
next
  case (Cons c cs)
  show ?case using Cons.IH cumulative_from_ge by auto
qed

lemma cumulative_from_last:
  "cs \<noteq> [] \<Longrightarrow> last (cumulative_from acc cs) = acc + sum_list cs"
proof (induction cs arbitrary: acc)
  case Nil
  then show ?case by simp
next
  case (Cons c cs)
  then show ?case by (cases cs) auto
qed

text \<open>bucket counts after a fold\<close>

lemma fold_observe_length:
  "length (bucket_counts (foldl (hist_child_observe bs) h vs)) = length (bucket_counts h)"
  by (induction vs arbitrary: h) (auto simp: hist_child_observe_def Let_def)

lemma fold_observe_count:
  "hist_count (foldl (hist_child_observe bs) h vs) = hist_count h + length vs"
  by (induction vs arbitrary: h) (auto simp: hist_child_observe_def Let_def)

lemma fold_observe_sum:
  "hist_sum (foldl (hist_child_observe bs) h vs) = hist_sum h + sum_list vs"
  by (induction vs arbitrary: h) (auto simp: hist_child_observe_def Let_def)

lemma fold_observe_nth:
  "i < length (bucket_counts h) \<Longrightarrow> length (bucket_counts h) = Suc (length bs) \<Longrightarrow>
   bucket_counts (foldl (hist_child_observe bs) h vs) ! i =
     bucket_counts h ! i + length (filter (\<lambda>v. bucket_index bs v = i) vs)"
proof (induction vs arbitrary: h)
  case Nil
  then show ?case by simp
next
  case (Cons v vs)
  let ?h = "hist_child_observe bs h v"
  have len: "length (bucket_counts ?h) = length (bucket_counts h)"
    by (simp add: hist_child_observe_def Let_def)
  have idx: "bucket_index bs v < length (bucket_counts h)"
    using bucket_index_le [of bs v] Cons.prems(2) by simp
  have step: "bucket_counts ?h ! i = bucket_counts h ! i + (if bucket_index bs v = i then 1 else 0)"
    using Cons.prems(1) idx by (simp add: hist_child_observe_def Let_def nth_list_update)
  from Cons.IH [of ?h] Cons.prems len
  have "bucket_counts (foldl (hist_child_observe bs) ?h vs) ! i =
          bucket_counts ?h ! i + length (filter (\<lambda>v. bucket_index bs v = i) vs)"
    by simp
  with step show ?case by simp
qed


lemma fold_observe_total:
  "length (bucket_counts h) = Suc (length bs) \<Longrightarrow>
   sum_list (bucket_counts (foldl (hist_child_observe bs) h vs)) =
     sum_list (bucket_counts h) + length vs"
proof (induction vs arbitrary: h)
  case Nil
  show ?case by simp
next
  case (Cons v vs)
  let ?h = "hist_child_observe bs h v"
  have idx: "bucket_index bs v < length (bucket_counts h)"
    using bucket_index_le [of bs v] Cons.prems by simp
  have len: "length (bucket_counts ?h) = Suc (length bs)"
    using Cons.prems by (simp add: hist_child_observe_def Let_def)
  have "bucket_counts h ! bucket_index bs v \<le> sum_list (bucket_counts h)"
    using idx by (simp add: member_le_sum_list)
  then have step: "sum_list (bucket_counts ?h) = Suc (sum_list (bucket_counts h))"
    using idx by (simp add: hist_child_observe_def Let_def sum_list_update)
  show ?case using Cons.IH [OF len] step by simp
qed

lemma length_filter_le_Suc:
  "length (filter (\<lambda>v. f v \<le> Suc i) vs) =
     length (filter (\<lambda>v. f v \<le> i) vs) + length (filter (\<lambda>v. f v = Suc i) vs)"
  by (induction vs) auto

lemma sum_take_counts:
  "\<forall>j < length cs. cs ! j = length (filter (\<lambda>v. f v = j) vs) \<Longrightarrow> i < length cs \<Longrightarrow>
   sum_list (take (Suc i) cs) = length (filter (\<lambda>v. f v \<le> i) vs)"
proof (induction i)
  case 0
  then show ?case by (cases cs) auto
next
  case (Suc i)
  then have "sum_list (take (Suc i) cs) = length (filter (\<lambda>v. f v \<le> i) vs)" by simp
  moreover have "take (Suc (Suc i)) cs = take (Suc i) cs @ [cs ! Suc i]"
    using Suc.prems(2) by (simp add: take_Suc_conv_app_nth)
  moreover have "cs ! Suc i = length (filter (\<lambda>v. f v = Suc i) vs)"
    using Suc.prems by simp
  ultimately show ?case by (simp add: length_filter_le_Suc)
qed

lemma buckets_sorted: "sorted_wrt (<) buckets"
  by (simp add: buckets_def)

lemma hist_empty_length: "length (bucket_counts (hist_empty bs)) = Suc (length bs)"
  by (simp add: hist_empty_def)

lemma hist_empty_nth: "i \<le> length bs \<Longrightarrow> bucket_counts (hist_empty bs) ! i = 0"
proof -
  assume "i \<le> length bs"
  then have "i < Suc (length bs)" by simp
  then have "replicate (Suc (length bs)) (0::nat) ! i = 0" by (rule nth_replicate)
  then show ?thesis by (simp add: hist_empty_def)
qed

lemma hist_empty_total: "sum_list (bucket_counts (hist_empty bs)) = 0"
  by (simp add: hist_empty_def)

lemma hist_empty_count: "hist_count (hist_empty bs) = 0"
  by (simp add: hist_empty_def)


lemma observed_child_fold:
  "observed_child os ls = foldl (hist_child_observe buckets) (hist_empty buckets) (recorded ls os)"
  by (simp add: observed_child_def hist_child_at_observe_all) (simp add: hist_child_at_def)

lemma observed_child_length:
  "length (bucket_counts (observed_child os ls)) = Suc (length buckets)"
  by (simp add: observed_child_fold fold_observe_length hist_empty_length)

lemma observed_child_nth:
  assumes "i \<le> length buckets"
  shows "bucket_counts (observed_child os ls) ! i =
           length (filter (\<lambda>v. bucket_index buckets v = i) (recorded ls os))"
proof -
  have "i < length (bucket_counts (hist_empty buckets))"
    using assms by (simp add: hist_empty_length)
  then have "bucket_counts (foldl (hist_child_observe buckets) (hist_empty buckets) (recorded ls os)) ! i =
      bucket_counts (hist_empty buckets) ! i +
      length (filter (\<lambda>v. bucket_index buckets v = i) (recorded ls os))"
    by (rule fold_observe_nth) (rule hist_empty_length)
  then show ?thesis using assms by (simp add: observed_child_fold hist_empty_nth)
qed

lemma observed_child_total:
  "sum_list (bucket_counts (observed_child os ls)) = length (recorded ls os)"
  by (simp add: observed_child_fold fold_observe_total hist_empty_length hist_empty_total)

lemma observed_child_cumulative_nth:
  assumes "i < length buckets"
  shows "cumulative_counts (observed_child os ls) ! i =
           length (filter (\<lambda>v. v \<le> buckets ! i) (recorded ls os))"
proof -
  let ?cs = "bucket_counts (observed_child os ls)"
  have i: "i < length ?cs" using assms by (simp add: observed_child_length)
  have "\<forall>j < length ?cs. ?cs ! j =
          length (filter (\<lambda>v. bucket_index buckets v = j) (recorded ls os))"
    by (simp add: observed_child_length observed_child_nth)
  then have "sum_list (take (Suc i) ?cs) =
               length (filter (\<lambda>v. bucket_index buckets v \<le> i) (recorded ls os))"
    using i by (rule sum_take_counts)
  moreover have "(\<lambda>v. bucket_index buckets v \<le> i) = (\<lambda>v. v \<le> buckets ! i)"
    using bucket_index_le_iff [OF sorted_wrt_mono_rel [of _ "(<)" "(\<le>)", OF _ buckets_sorted] assms]
    by auto
  ultimately show ?thesis
    using i by (simp add: cumulative_counts_def cumulative_from_nth)
qed

lemma bucket_index_overflow: "\<forall>b \<in> set bs. b < v \<Longrightarrow> bucket_index bs v = length bs"
  by (induction bs) auto

text \<open>
  Claim C4. After any sequence of observations on the histogram, for each label instance:
  the bucket bounds increase strictly, there is one cumulative count per bound plus one
  for +Inf, the cumulative counts never decrease along the bounds, the +Inf count (the
  last one) and the running count both equal the number of observations of that label
  instance, the cumulative count of a bound is the number of observed values not above
  it, and each bucket holds exactly the values whose bucket index it is, where the
  bucket index of a value is that of the smallest bound that is not below the value, and
  the +Inf bucket when every bound is below it.
\<close>

theorem histogram_cumulative_buckets:
  "sorted_wrt (<) buckets \<and>
   length (cumulative_counts (observed_child os ls)) = Suc (length buckets) \<and>
   sorted (cumulative_counts (observed_child os ls)) \<and>
   last (cumulative_counts (observed_child os ls)) = length (recorded ls os) \<and>
   hist_count (observed_child os ls) = length (recorded ls os) \<and>
   (\<forall>i < length buckets. cumulative_counts (observed_child os ls) ! i =
        length (filter (\<lambda>v. v \<le> buckets ! i) (recorded ls os))) \<and>
   (\<forall>i \<le> length buckets. bucket_counts (observed_child os ls) ! i =
        length (filter (\<lambda>v. bucket_index buckets v = i) (recorded ls os))) \<and>
   (\<forall>v. (\<forall>b \<in> set buckets. v \<le> b \<longrightarrow>
             bucket_index buckets v < length buckets \<and> v \<le> buckets ! bucket_index buckets v \<and>
             buckets ! bucket_index buckets v \<le> b) \<and>
        ((\<forall>b \<in> set buckets. b < v) \<longrightarrow> bucket_index buckets v = length buckets))"
proof -
  have sorted_le: "sorted buckets"
    by (rule sorted_wrt_mono_rel [of _ "(<)" "(\<le>)", OF _ buckets_sorted]) simp
  have nonempty: "bucket_counts (observed_child os ls) \<noteq> []"
    using observed_child_length [of os ls] by auto
  have "last (cumulative_counts (observed_child os ls)) = length (recorded ls os)"
    using cumulative_from_last [OF nonempty, of 0]
    by (simp add: cumulative_counts_def observed_child_total)
  moreover have "hist_count (observed_child os ls) = length (recorded ls os)"
    by (simp add: observed_child_fold fold_observe_count hist_empty_count)
  moreover have "\<forall>v. (\<forall>b \<in> set buckets. v \<le> b \<longrightarrow>
             bucket_index buckets v < length buckets \<and> v \<le> buckets ! bucket_index buckets v \<and>
             buckets ! bucket_index buckets v \<le> b) \<and>
        ((\<forall>b \<in> set buckets. b < v) \<longrightarrow> bucket_index buckets v = length buckets)"
    using bucket_index_smallest [OF sorted_le] bucket_index_bound bucket_index_overflow
    by blast
  ultimately show ?thesis
    by (simp add: buckets_sorted cumulative_counts_def cumulative_from_length
        cumulative_from_sorted observed_child_length
        observed_child_cumulative_nth [unfolded cumulative_counts_def] observed_child_nth)
qed

theorem histogram_cumulative_buckets_witness:
  "cumulative_counts (observed_child
      [([''a''], 1 / 20), ([''a''], 3 / 10), ([''b''], 7), ([''a''], 20), ([''a''], 1 / 2)] [''a''])
     = [1, 3, 3, 3, 3, 4] \<and>
   recorded [''a'']
      [([''a''], 1 / 20), ([''a''], 3 / 10), ([''b''], 7), ([''a''], 20), ([''a''], 1 / 2 :: rat)]
     = [1 / 20, 3 / 10, 20, 1 / 2] \<and>
   (1::nat) < length buckets \<and> buckets ! 1 = 1 / 2 \<and> (3 / 10 :: rat) \<le> 1 / 2 \<and>
   (1 / 2 :: rat) \<in> set buckets \<and> bucket_index buckets (3 / 10) = 1 \<and>
   last buckets = 10 \<and> (10::rat) < 20 \<and> bucket_index buckets 20 = 5"
  using histogram_cumulative_buckets
    [of "[([''a''], 1 / 20), ([''a''], 3 / 10), ([''b''], 7), ([''a''], 20), ([''a''], 1 / 2)]"
        "[''a'']"]
  by (simp add: observed_child_def cumulative_counts_def histogram_observe_def hist_child_at_def
      hist_child_observe_def hist_empty_def buckets_def recorded_def)

section \<open>Properties of the middleware\<close>

lemma hist_count_observe:
  "hist_count (hist_child_at (histogram_observe h l v) ls) =
     (if ls = l then Suc (hist_count (hist_child_at h l)) else hist_count (hist_child_at h ls))"
  by (simp add: hist_child_at_observe hist_child_observe_def Let_def)

lemma summary_child_at_observe:
  "summary_child_at (summary_observe s l v) ls =
     (if ls = l
      then \<lparr>summary_sum = summary_sum (summary_child_at s l) + v,
            summary_count = Suc (summary_count (summary_child_at s l))\<rparr>
      else summary_child_at s ls)"
  by (simp add: summary_child_at_def summary_observe_def Let_def update_conv')

lemma counter_value_inc:
  "counter_value (inc c l) ls = (if ls = l then counter_value c l + 1 else counter_value c ls)"
  by (simp add: inc_def counter_value_add)

lemma middleware_Returned:
  assumes "call_next (snd (time_time w)) request = (Returned response, w2)"
  shows "prometheus_middleware call_next w request =
     (Returned response,
      w2\<lparr>time_reads := Suc (time_reads w2),
         registry := (registry w2)
           \<lparr>http_request_counter :=
              inc (http_request_counter (registry w2))
                [req_method request, path request, str (status_code response)],
            request_duration_histogram :=
              histogram_observe (request_duration_histogram (registry w2))
                [req_method request, path request, str (status_code response)]
                (time_source w2 (time_reads w2) - time_source w (time_reads w)),
            request_duration_summary :=
              summary_observe (request_duration_summary (registry w2))
                [req_method request, path request, str (status_code response)]
                (time_source w2 (time_reads w2) - time_source w (time_reads w))\<rparr>\<rparr>)"
  using assms by (simp add: prometheus_middleware_def time_time_def Let_def)

lemma middleware_Raised:
  "call_next (snd (time_time w)) request = (Raised e, w2) \<Longrightarrow>
   prometheus_middleware call_next w request = (Raised e, w2)"
  by (simp add: prometheus_middleware_def time_time_def Let_def)

lemma middleware_Exited:
  "call_next (snd (time_time w)) request = (Exited, w2) \<Longrightarrow>
   prometheus_middleware call_next w request = (Exited, w2)"
  by (simp add: prometheus_middleware_def time_time_def Let_def)

text \<open>
  Claim C2. When the handler returns a response, the middleware returns that response and
  records exactly one observation: with the label instance (method, path, status code as
  a string) and the elapsed time (the clock reading after the handler minus the reading
  before it), the counter of that label instance goes up by 1, the histogram and the
  summary of that label instance each take the one observation of the elapsed time (count
  up by 1, sum up by the elapsed time), every other label instance of the three metrics
  keeps its state, and the gauge is not touched.
\<close>

theorem middleware_one_observation:
  fixes call_next :: handler
  defines "L \<equiv> \<lambda>request response. [req_method request, path request, str (status_code response)]"
  defines "D \<equiv> \<lambda>w w2. time_source w2 (time_reads w2) - time_source w (time_reads w)"
  assumes "call_next (snd (time_time w)) request = (Returned response, w2)"
  shows "\<exists>w3. prometheus_middleware call_next w request = (Returned response, w3) \<and>
     counter_value (http_request_counter (registry w3)) =
       (counter_value (http_request_counter (registry w2)))
         (L request response := counter_value (http_request_counter (registry w2)) (L request response) + 1) \<and>
     hist_child_at (request_duration_histogram (registry w3)) =
       (hist_child_at (request_duration_histogram (registry w2)))
         (L request response := hist_child_observe buckets
            (hist_child_at (request_duration_histogram (registry w2)) (L request response)) (D w w2)) \<and>
     summary_child_at (request_duration_summary (registry w3)) =
       (summary_child_at (request_duration_summary (registry w2)))
         (L request response :=
            \<lparr>summary_sum = summary_sum (summary_child_at (request_duration_summary (registry w2)) (L request response)) + D w w2,
             summary_count = Suc (summary_count (summary_child_at (request_duration_summary (registry w2)) (L request response)))\<rparr>) \<and>
     hist_count (hist_child_at (request_duration_histogram (registry w3)) (L request response)) =
       Suc (hist_count (hist_child_at (request_duration_histogram (registry w2)) (L request response))) \<and>
     hist_sum (hist_child_at (request_duration_histogram (registry w3)) (L request response)) =
       hist_sum (hist_child_at (request_duration_histogram (registry w2)) (L request response)) + D w w2 \<and>
     gauge (registry w3) = gauge (registry w2)"
proof -
  from assms(3) have "prometheus_middleware call_next w request =
     (Returned response,
      w2\<lparr>time_reads := Suc (time_reads w2),
         registry := (registry w2)
           \<lparr>http_request_counter :=
              inc (http_request_counter (registry w2)) (L request response),
            request_duration_histogram :=
              histogram_observe (request_duration_histogram (registry w2)) (L request response) (D w w2),
            request_duration_summary :=
              summary_observe (request_duration_summary (registry w2)) (L request response) (D w w2)\<rparr>\<rparr>)"
    unfolding L_def D_def by (rule middleware_Returned)
  then show ?thesis
    by (simp add: fun_eq_iff counter_value_inc hist_child_at_observe summary_child_at_observe
        hist_child_observe_def Let_def)
qed

text \<open>
  Claim C5. The middleware calls the handler on every request, with the request as it
  came and with the world as it was but for the one clock reading, and its outcome is the
  handler's outcome: the same response object when the handler returns one, the same
  exception or process exit otherwise. Of the world the handler leaves, the middleware
  changes only the three request metrics and the count of readings of the wall clock.
\<close>

theorem middleware_transparent:
  "fst (prometheus_middleware call_next w request) = fst (call_next (snd (time_time w)) request) \<and>
   snd (time_time w) = w\<lparr>time_reads := Suc (time_reads w)\<rparr> \<and>
   time_source (snd (prometheus_middleware call_next w request)) =
     time_source (snd (call_next (snd (time_time w)) request)) \<and>
   timer_source (snd (prometheus_middleware call_next w request)) =
     timer_source (snd (call_next (snd (time_time w)) request)) \<and>
   timer_reads (snd (prometheus_middleware call_next w request)) =
     timer_reads (snd (call_next (snd (time_time w)) request)) \<and>
   service_b (snd (prometheus_middleware call_next w request)) =
     service_b (snd (call_next (snd (time_time w)) request)) \<and>
   service_b_calls (snd (prometheus_middleware call_next w request)) =
     service_b_calls (snd (call_next (snd (time_time w)) request)) \<and>
   log (snd (prometheus_middleware call_next w request)) =
     log (snd (call_next (snd (time_time w)) request)) \<and>
   gauge (registry (snd (prometheus_middleware call_next w request))) =
     gauge (registry (snd (call_next (snd (time_time w)) request)))"
proof (cases "call_next (snd (time_time w)) request")
  case (Pair out w2)
  show ?thesis
  proof (cases out)
    case (Returned response)
    with Pair have "call_next (snd (time_time w)) request = (Returned response, w2)" by simp
    then have "prometheus_middleware call_next w request = (Returned response,
      w2\<lparr>time_reads := Suc (time_reads w2),
         registry := (registry w2)
           \<lparr>http_request_counter :=
              inc (http_request_counter (registry w2))
                [req_method request, path request, str (status_code response)],
            request_duration_histogram :=
              histogram_observe (request_duration_histogram (registry w2))
                [req_method request, path request, str (status_code response)]
                (time_source w2 (time_reads w2) - time_source w (time_reads w)),
            request_duration_summary :=
              summary_observe (request_duration_summary (registry w2))
                [req_method request, path request, str (status_code response)]
                (time_source w2 (time_reads w2) - time_source w (time_reads w))\<rparr>\<rparr>)"
      by (rule middleware_Returned)
    with Pair Returned show ?thesis by (simp add: time_time_def)
  next
    case (Raised e)
    with Pair have "call_next (snd (time_time w)) request = (Raised e, w2)" by simp
    then have "prometheus_middleware call_next w request = (Raised e, w2)"
      by (rule middleware_Raised)
    with Pair Raised show ?thesis by (simp add: time_time_def)
  next
    case Exited
    with Pair have "call_next (snd (time_time w)) request = (Exited, w2)" by simp
    then have "prometheus_middleware call_next w request = (Exited, w2)"
      by (rule middleware_Exited)
    with Pair Exited show ?thesis by (simp add: time_time_def)
  qed
qed


lemma leaves_request_metricsD:
  assumes "leaves_request_metrics h" "h w r = (out, w')"
  shows "http_request_counter (registry w') = http_request_counter (registry w)"
    and "request_duration_histogram (registry w') = request_duration_histogram (registry w)"
    and "request_duration_summary (registry w') = request_duration_summary (registry w)"
proof -
  have "snd (h w r) = w'" using assms(2) by simp
  with assms(1) show "http_request_counter (registry w') = http_request_counter (registry w)"
    and "request_duration_histogram (registry w') = request_duration_histogram (registry w)"
    and "request_duration_summary (registry w') = request_duration_summary (registry w)"
    unfolding leaves_request_metrics_def by metis+
qed

lemma time_time_registry: "registry (snd (time_time w)) = registry w"
  by (simp add: time_time_def)

lemma middleware_step_counts:
  assumes frame: "leaves_request_metrics h"
    and step: "prometheus_middleware h w r = (out, w')"
  shows "counter_value (http_request_counter (registry w')) ls =
           counter_value (http_request_counter (registry w)) ls + of_nat (count_list (completed [r] [out]) ls)"
    and "hist_count (hist_child_at (request_duration_histogram (registry w')) ls) =
           hist_count (hist_child_at (request_duration_histogram (registry w)) ls) + count_list (completed [r] [out]) ls"
    and "summary_count (summary_child_at (request_duration_summary (registry w')) ls) =
           summary_count (summary_child_at (request_duration_summary (registry w)) ls) + count_list (completed [r] [out]) ls"
proof -
  obtain o2 w2 where h: "h (snd (time_time w)) r = (o2, w2)" by (cases "h (snd (time_time w)) r")
  note fr = leaves_request_metricsD [OF frame h, unfolded time_time_registry]
  have "counter_value (http_request_counter (registry w')) ls =
           counter_value (http_request_counter (registry w)) ls + of_nat (count_list (completed [r] [out]) ls) \<and>
        hist_count (hist_child_at (request_duration_histogram (registry w')) ls) =
           hist_count (hist_child_at (request_duration_histogram (registry w)) ls) + count_list (completed [r] [out]) ls \<and>
        summary_count (summary_child_at (request_duration_summary (registry w')) ls) =
           summary_count (summary_child_at (request_duration_summary (registry w)) ls) + count_list (completed [r] [out]) ls"
  proof (cases o2)
    case (Returned response)
    with h have "h (snd (time_time w)) r = (Returned response, w2)" by simp
    from middleware_Returned [of h w r response w2, OF this] step
    show ?thesis
      using fr by (auto simp: counter_value_inc hist_count_observe summary_child_at_observe)
  next
    case (Raised e)
    with h have "h (snd (time_time w)) r = (Raised e, w2)" by simp
    from middleware_Raised [of h w r e w2, OF this] step
    show ?thesis using fr by auto
  next
    case Exited
    with h have "h (snd (time_time w)) r = (Exited, w2)" by simp
    from middleware_Exited [of h w r w2, OF this] step
    show ?thesis using fr by auto
  qed
  then show "counter_value (http_request_counter (registry w')) ls =
           counter_value (http_request_counter (registry w)) ls + of_nat (count_list (completed [r] [out]) ls)"
    and "hist_count (hist_child_at (request_duration_histogram (registry w')) ls) =
           hist_count (hist_child_at (request_duration_histogram (registry w)) ls) + count_list (completed [r] [out]) ls"
    and "summary_count (summary_child_at (request_duration_summary (registry w')) ls) =
           summary_count (summary_child_at (request_duration_summary (registry w)) ls) + count_list (completed [r] [out]) ls"
    by simp_all
qed

lemma completed_Cons:
  "count_list (completed (r # rs) (out # outs)) ls =
     count_list (completed [r] [out]) ls + count_list (completed rs outs) ls"
  by (cases out) auto

lemma serve_Cons_cases:
  assumes "serve app w (r # rs) = (outs, w')"
  obtains (exit) w1 where "app w r = (Exited, w1)" "outs = [Exited]" "w' = w1"
  | (continue) out w1 outs' where "app w r = (out, w1)" "out \<noteq> Exited"
      "serve app w1 rs = (outs', w')" "outs = out # outs'"
proof (cases "app w r")
  case (Pair out w1)
  show ?thesis
  proof (cases "out = Exited")
    case True
    with Pair assms show ?thesis by (intro exit [of w1]) auto
  next
    case False
    obtain outs' w2 where rest: "serve app w1 rs = (outs', w2)" by (cases "serve app w1 rs")
    with Pair False assms have "outs = out # outs'" "w' = w2"
      by (cases out; simp)+
    with Pair False rest show ?thesis by (intro continue [of out w1 outs']) auto
  qed
qed

lemma serve_counts:
  assumes frame: "leaves_request_metrics h"
  shows "serve (prometheus_middleware h) w rs = (outs, w') \<Longrightarrow>
     counter_value (http_request_counter (registry w')) ls =
       counter_value (http_request_counter (registry w)) ls + of_nat (count_list (completed rs outs) ls) \<and>
     hist_count (hist_child_at (request_duration_histogram (registry w')) ls) =
       hist_count (hist_child_at (request_duration_histogram (registry w)) ls) + count_list (completed rs outs) ls \<and>
     summary_count (summary_child_at (request_duration_summary (registry w')) ls) =
       summary_count (summary_child_at (request_duration_summary (registry w)) ls) + count_list (completed rs outs) ls"
proof (induction rs arbitrary: w outs)
  case Nil
  then show ?case by simp
next
  case (Cons r rs)
  from Cons.prems show ?case
  proof (cases rule: serve_Cons_cases)
    case (exit w1)
    from middleware_step_counts [OF frame exit(1), of ls] exit(2,3)
    show ?thesis by simp
  next
    case (continue out w1 outs')
    note one = middleware_step_counts [OF frame continue(1), of ls]
    note rest = Cons.IH [OF continue(3)]
    have split: "count_list (completed (r # rs) outs) ls =
        count_list (completed [r] [out]) ls + count_list (completed rs outs') ls"
      unfolding continue(4) by (rule completed_Cons)
    show ?thesis
      using one rest by (simp only: split of_nat_add) simp
  qed
qed

lemma router_leaves_request_metrics: "leaves_request_metrics (router gen unmatched)"
  unfolding leaves_request_metrics_def
  by (auto simp: router_def root_def healthy_def server_error_def not_found_def logs_def
      crash_def example_def metrics_def call_service_b_def logging_example_def logger_def
      simulate_async_task_def time_time_def default_timer_def requests_get_def Let_def
      split: sum.splits exn.splits prod.splits)


theorem middleware_one_observation_witness:
  "(\<lambda>w r. not_found w) (snd (time_time sample_world)) (GET ''/notFound'') =
     (Returned (JSONResponse 404 [(''error'', JStr ''Not Found''), (''statusCode'', JInt 404)]),
      snd (time_time sample_world)) \<and>
   (\<exists>w3. prometheus_middleware (\<lambda>w r. not_found w) sample_world (GET ''/notFound'') =
           (Returned (JSONResponse 404 [(''error'', JStr ''Not Found''), (''statusCode'', JInt 404)]), w3) \<and>
         counter_value (http_request_counter (registry w3)) [''GET'', ''/notFound'', ''404''] = 1 \<and>
         counter_value (http_request_counter (registry w3)) [''GET'', ''/notFound'', ''200''] = 0 \<and>
         hist_count (hist_child_at (request_duration_histogram (registry w3)) [''GET'', ''/notFound'', ''404'']) = 1 \<and>
         hist_sum (hist_child_at (request_duration_histogram (registry w3)) [''GET'', ''/notFound'', ''404'']) = 1 / 4 \<and>
         summary_child_at (request_duration_summary (registry w3)) [''GET'', ''/notFound'', ''404''] =
           \<lparr>summary_sum = 1 / 4, summary_count = 1\<rparr>)"
proof -
  let ?resp = "JSONResponse 404 [(''error'', JStr ''Not Found''), (''statusCode'', JInt 404)]"
  have labels: "[req_method (GET ''/notFound''), path (GET ''/notFound''), str (status_code ?resp)] =
      [''GET'', ''/notFound'', ''404'']"
    by (simp add: GET_def JSONResponse_def str_def digit_def)
  have elapsed: "time_source (snd (time_time sample_world)) (time_reads (snd (time_time sample_world))) -
      time_source sample_world (time_reads sample_world) = 1 / 4"
    by (simp add: time_time_def sample_world_def initial_world_def sample_clock_def)
  have start: "registry (snd (time_time sample_world)) = initial_registry"
    by (simp add: time_time_def sample_world_def initial_world_def)
  have hyp: "(\<lambda>w r. not_found w) (snd (time_time sample_world)) (GET ''/notFound'') =
      (Returned ?resp, snd (time_time sample_world))"
    by (simp add: not_found_def)
  from middleware_one_observation [of "\<lambda>w r. not_found w" sample_world "GET ''/notFound''", OF hyp]
  obtain w3 where
    "prometheus_middleware (\<lambda>w r. not_found w) sample_world (GET ''/notFound'') = (Returned ?resp, w3)"
    "counter_value (http_request_counter (registry w3)) =
       (counter_value (http_request_counter initial_registry))
         ([''GET'', ''/notFound'', ''404''] :=
            counter_value (http_request_counter initial_registry) [''GET'', ''/notFound'', ''404''] + 1)"
    "hist_child_at (request_duration_histogram (registry w3)) =
       (hist_child_at (request_duration_histogram initial_registry))
         ([''GET'', ''/notFound'', ''404''] := hist_child_observe buckets
            (hist_child_at (request_duration_histogram initial_registry) [''GET'', ''/notFound'', ''404'']) (1 / 4))"
    "summary_child_at (request_duration_summary (registry w3)) =
       (summary_child_at (request_duration_summary initial_registry))
         ([''GET'', ''/notFound'', ''404''] :=
            \<lparr>summary_sum = summary_sum (summary_child_at (request_duration_summary initial_registry)
                 [''GET'', ''/notFound'', ''404'']) + 1 / 4,
             summary_count = Suc (summary_count (summary_child_at (request_duration_summary initial_registry)
                 [''GET'', ''/notFound'', ''404'']))\<rparr>)"
    unfolding labels elapsed start by blast
  then show ?thesis
    using hyp
    by (intro conjI exI [of _ w3])
       (simp_all add: initial_registry_def counter_value_def hist_child_at_def hist_empty_def
         hist_child_observe_def summary_child_at_def Let_def)
qed

theorem middleware_transparent_witness:
  "fst (prometheus_middleware (\<lambda>w r. not_found w) sample_world (GET ''/notFound'')) =
     Returned (JSONResponse 404 [(''error'', JStr ''Not Found''), (''statusCode'', JInt 404)]) \<and>
   fst (prometheus_middleware (\<lambda>w r. crash w) sample_world (GET ''/crash'')) = Exited \<and>
   log (snd (prometheus_middleware (\<lambda>w r. crash w) sample_world (GET ''/crash''))) =
     [(''ERROR'', ''Intentionally crashing the server...'')]"
  using middleware_transparent [of "\<lambda>w r. not_found w" sample_world "GET ''/notFound''"]
    middleware_transparent [of "\<lambda>w r. crash w" sample_world "GET ''/crash''"]
  by (simp add: not_found_def crash_def logger_def time_time_def sample_world_def initial_world_def)

section \<open>Properties of the application\<close>

lemma service_a_Returned:
  assumes "router gen unmatched (snd (time_time w)) r = (Returned resp, w2)"
  shows "service_a gen unmatched w r =
     (Returned resp,
      w2\<lparr>time_reads := Suc (time_reads w2),
         registry := (registry w2)
           \<lparr>http_request_counter :=
              inc (http_request_counter (registry w2)) [req_method r, path r, str (status_code resp)],
            request_duration_histogram :=
              histogram_observe (request_duration_histogram (registry w2))
                [req_method r, path r, str (status_code resp)]
                (time_source w2 (time_reads w2) - time_source w (time_reads w)),
            request_duration_summary :=
              summary_observe (request_duration_summary (registry w2))
                [req_method r, path r, str (status_code resp)]
                (time_source w2 (time_reads w2) - time_source w (time_reads w))\<rparr>\<rparr>)"
  unfolding service_a_def using assms by (rule middleware_Returned)

lemma service_a_Raised:
  "router gen unmatched (snd (time_time w)) r = (Raised e, w2) \<Longrightarrow>
   service_a gen unmatched w r = (Raised e, w2)"
  unfolding service_a_def by (rule middleware_Raised)

lemma serve_service_a_counts:
  "counter_value (http_request_counter (registry (snd (serve (service_a gen unmatched) w rs)))) ls =
     counter_value (http_request_counter (registry w)) ls +
     of_nat (count_list (completed rs (fst (serve (service_a gen unmatched) w rs))) ls) \<and>
   hist_count (hist_child_at (request_duration_histogram
       (registry (snd (serve (service_a gen unmatched) w rs)))) ls) =
     hist_count (hist_child_at (request_duration_histogram (registry w)) ls) +
     count_list (completed rs (fst (serve (service_a gen unmatched) w rs))) ls \<and>
   summary_count (summary_child_at (request_duration_summary
       (registry (snd (serve (service_a gen unmatched) w rs)))) ls) =
     summary_count (summary_child_at (request_duration_summary (registry w)) ls) +
     count_list (completed rs (fst (serve (service_a gen unmatched) w rs))) ls"
  unfolding service_a_def
  by (rule serve_counts [OF router_leaves_request_metrics]) simp

lemma initial_counts:
  "counter_value (http_request_counter (registry (initial_world ts tm sb))) ls = 0"
  "hist_count (hist_child_at (request_duration_histogram (registry (initial_world ts tm sb))) ls) = 0"
  "summary_count (summary_child_at (request_duration_summary (registry (initial_world ts tm sb))) ls) = 0"
  by (simp_all add: initial_world_def initial_registry_def counter_value_def hist_child_at_def
      hist_empty_def summary_child_at_def)

text \<open>
  Claim C9. After any sequence of requests served by the application from its initial
  state, for every label instance the value of the counter \<^verbatim>\<open>http_requests_total\<close>,
  the observation count of the histogram and the observation count of the summary are
  equal: each is the number of exchanges of that label instance that completed.
\<close>

theorem request_metrics_agree:
  "counter_value (http_request_counter
       (registry (snd (serve (service_a gen unmatched) (initial_world ts tm sb) rs)))) ls =
     of_nat (count_list (completed rs (fst (serve (service_a gen unmatched) (initial_world ts tm sb) rs))) ls) \<and>
   hist_count (hist_child_at (request_duration_histogram
       (registry (snd (serve (service_a gen unmatched) (initial_world ts tm sb) rs)))) ls) =
     count_list (completed rs (fst (serve (service_a gen unmatched) (initial_world ts tm sb) rs))) ls \<and>
   summary_count (summary_child_at (request_duration_summary
       (registry (snd (serve (service_a gen unmatched) (initial_world ts tm sb) rs)))) ls) =
     count_list (completed rs (fst (serve (service_a gen unmatched) (initial_world ts tm sb) rs))) ls"
  using serve_service_a_counts [of gen unmatched "initial_world ts tm sb" rs ls]
  by (simp add: initial_counts)


lemmas run_defs =
  service_a_def prometheus_middleware_def router_def GET_def root_def healthy_def server_error_def
  not_found_def logs_def crash_def example_def metrics_def call_service_b_def logging_example_def
  logger_def simulate_async_task_def time_time_def default_timer_def requests_get_def JSONResponse_def
  PlainTextResponse_def Response_def str_def digit_def

theorem request_metrics_agree_witness:
  "count_list (completed
      [GET ''/healthy'', GET ''/notFound'', GET ''/healthy'', GET ''/crash'', GET ''/healthy'']
      (fst (serve (service_a failing_serializer sample_unmatched) (initial_world sample_clock sample_timer sample_service_b)
        [GET ''/healthy'', GET ''/notFound'', GET ''/healthy'', GET ''/crash'', GET ''/healthy''])))
      [''GET'', ''/healthy'', ''200''] = 2 \<and>
   counter_value (http_request_counter
       (registry (snd (serve (service_a failing_serializer sample_unmatched)
          (initial_world sample_clock sample_timer sample_service_b)
          [GET ''/healthy'', GET ''/notFound'', GET ''/healthy'', GET ''/crash'', GET ''/healthy'']))))
       [''GET'', ''/healthy'', ''200''] = 2 \<and>
   hist_count (hist_child_at (request_duration_histogram
       (registry (snd (serve (service_a failing_serializer sample_unmatched)
          (initial_world sample_clock sample_timer sample_service_b)
          [GET ''/healthy'', GET ''/notFound'', GET ''/healthy'', GET ''/crash'', GET ''/healthy'']))))
       [''GET'', ''/healthy'', ''200'']) = 2 \<and>
   summary_count (summary_child_at (request_duration_summary
       (registry (snd (serve (service_a failing_serializer sample_unmatched)
          (initial_world sample_clock sample_timer sample_service_b)
          [GET ''/healthy'', GET ''/notFound'', GET ''/healthy'', GET ''/crash'', GET ''/healthy'']))))
       [''GET'', ''/healthy'', ''200'']) = 2"
proof -
  have "count_list (completed
      [GET ''/healthy'', GET ''/notFound'', GET ''/healthy'', GET ''/crash'', GET ''/healthy'']
      (fst (serve (service_a failing_serializer sample_unmatched) (initial_world sample_clock sample_timer sample_service_b)
        [GET ''/healthy'', GET ''/notFound'', GET ''/healthy'', GET ''/crash'', GET ''/healthy''])))
      [''GET'', ''/healthy'', ''200''] = 2"
    by (simp add: run_defs initial_world_def Let_def)
  then show ?thesis
    using request_metrics_agree [of failing_serializer sample_unmatched sample_clock sample_timer sample_service_b
        "[GET ''/healthy'', GET ''/notFound'', GET ''/healthy'', GET ''/crash'', GET ''/healthy'']"
        "[''GET'', ''/healthy'', ''200'']"]
    by simp
qed


lemma serve_length:
  "serve app w rs = (outs, w') \<Longrightarrow> Exited \<notin> set outs \<Longrightarrow> length outs = length rs"
proof (induction rs arbitrary: w outs)
  case Nil
  then show ?case by simp
next
  case (Cons r rs)
  from Cons.prems(1) show ?case
  proof (cases rule: serve_Cons_cases)
    case (exit w1)
    with Cons.prems(2) show ?thesis by simp
  next
    case (continue out w1 outs')
    with Cons.prems(2) have "Exited \<notin> set outs'" by simp
    from Cons.IH [OF continue(3) this] continue(4) show ?thesis by simp
  qed
qed

lemma completed_same_labels:
  "length resps = length rs \<Longrightarrow> \<forall>r \<in> set rs. req_method r = m \<and> path r = p \<Longrightarrow>
   \<forall>x \<in> set resps. status_code x = sc \<Longrightarrow>
   count_list (completed rs (map Returned resps)) [m, p, str sc] = length rs"
proof (induction resps rs rule: list_induct2)
  case Nil
  show ?case by simp
next
  case (Cons x xs r rs)
  from Cons.prems have here: "req_method r = m" "path r = p" "status_code x = sc"
    and rest: "\<forall>r \<in> set rs. req_method r = m \<and> path r = p" "\<forall>x \<in> set xs. status_code x = sc"
    by simp_all
  have "completed (r # rs) (map Returned (x # xs)) =
      [m, p, str sc] # completed rs (map Returned xs)"
    by (simp add: here)
  then show ?case using Cons.IH [OF rest] by simp
qed

lemma serve_Returned_Cons:
  assumes "fst (app w r) = Returned x"
  shows "serve app w (r # rs) =
     (Returned x # fst (serve app (snd (app w r)) rs), snd (serve app (snd (app w r)) rs))"
proof -
  obtain w1 where "app w r = (Returned x, w1)"
    using assms by (cases "app w r") simp
  then show ?thesis by (simp add: case_prod_unfold Let_def)
qed

lemma counter_line_in_exposition:
  assumes "counter_value (http_request_counter r) ls = v" "v \<noteq> 0"
  shows "sample_line ''http_requests_total'' (zip request_labels ls) (render fmt v)
           \<in> set (exposition_lines fmt r)"
proof -
  let ?line = "\<lambda>(ls, v). sample_line ''http_requests_total'' (zip request_labels ls) (render fmt v)"
  from assms have "map_of (http_request_counter r) ls = Some v"
    by (simp add: counter_value_def split: option.splits)
  then have "(ls, v) \<in> set (http_request_counter r)" by (rule map_of_SomeD)
  then have "?line (ls, v) \<in> ?line ` set (http_request_counter r)" by (rule imageI)
  then show ?thesis by (simp add: exposition_lines_def counter_lines_def)
qed

lemma healthy_response:
  "\<exists>resp. (\<forall>w. healthy w = (Returned resp, w)) \<and> status_code resp = 200"
  by (simp add: healthy_def JSONResponse_def)

lemma healthy_step:
  "\<exists>resp. fst (service_a gen unmatched w (GET ''/healthy'')) = Returned resp \<and> status_code resp = 200 \<and>
     counter_value (http_request_counter (registry (snd (service_a gen unmatched w (GET ''/healthy'')))))
        [''GET'', ''/healthy'', ''200''] =
     counter_value (http_request_counter (registry w)) [''GET'', ''/healthy'', ''200''] + 1"
proof -
  from healthy_response obtain resp where h: "\<And>w. healthy w = (Returned resp, w)"
    and sc: "status_code resp = 200" by blast
  have r: "router gen unmatched (snd (time_time w)) (GET ''/healthy'') =
      (Returned resp, snd (time_time w))"
    by (simp add: router_def GET_def h)
  have l: "[req_method (GET ''/healthy''), path (GET ''/healthy''), str (status_code resp)] =
      [''GET'', ''/healthy'', ''200'']"
    by (simp add: sc GET_def str_def digit_def)
  have "service_a gen unmatched w (GET ''/healthy'') =
     (Returned resp,
      (snd (time_time w))\<lparr>time_reads := Suc (time_reads (snd (time_time w))),
         registry := (registry (snd (time_time w)))
           \<lparr>http_request_counter :=
              inc (http_request_counter (registry (snd (time_time w)))) [''GET'', ''/healthy'', ''200''],
            request_duration_histogram :=
              histogram_observe (request_duration_histogram (registry (snd (time_time w))))
                [''GET'', ''/healthy'', ''200'']
                (time_source (snd (time_time w)) (time_reads (snd (time_time w))) - time_source w (time_reads w)),
            request_duration_summary :=
              summary_observe (request_duration_summary (registry (snd (time_time w))))
                [''GET'', ''/healthy'', ''200'']
                (time_source (snd (time_time w)) (time_reads (snd (time_time w))) - time_source w (time_reads w))\<rparr>\<rparr>)"
    using service_a_Returned [of gen unmatched w "GET ''/healthy''" resp "snd (time_time w)", OF r]
    unfolding l .
  then show ?thesis
    using sc by (simp add: counter_value_inc time_time_def)
qed

lemma metrics_step:
  "gen (registry w) = Inr doc \<Longrightarrow>
   service_a gen unmatched w (GET ''/metrics'') =
     (Returned (Response doc CONTENT_TYPE_LATEST),
      w\<lparr>time_reads := Suc (Suc (time_reads w)),
        registry := (registry w)
          \<lparr>http_request_counter := inc (http_request_counter (registry w)) [''GET'', ''/metrics'', ''200''],
           request_duration_histogram :=
             histogram_observe (request_duration_histogram (registry w)) [''GET'', ''/metrics'', ''200'']
               (time_source w (Suc (time_reads w)) - time_source w (time_reads w)),
           request_duration_summary :=
             summary_observe (request_duration_summary (registry w)) [''GET'', ''/metrics'', ''200'']
               (time_source w (Suc (time_reads w)) - time_source w (time_reads w))\<rparr>\<rparr>)"
proof -
  assume gen: "gen (registry w) = Inr doc"
  have r: "router gen unmatched (snd (time_time w)) (GET ''/metrics'') =
      (Returned (Response doc CONTENT_TYPE_LATEST), snd (time_time w))"
    using gen by (simp add: router_def GET_def metrics_def time_time_def)
  have "[req_method (GET ''/metrics''), path (GET ''/metrics''),
         str (status_code (Response doc CONTENT_TYPE_LATEST))] = [''GET'', ''/metrics'', ''200'']"
    by (simp add: GET_def Response_def str_def digit_def)
  then show ?thesis
    using service_a_Returned [of gen unmatched w "GET ''/metrics''" "Response doc CONTENT_TYPE_LATEST"
        "snd (time_time w)", OF r]
    by (simp add: time_time_def)
qed

lemma not_found_step:
  "fst (service_a gen unmatched w (GET ''/notFound'')) =
     Returned (JSONResponse 404 [(''error'', JStr ''Not Found''), (''statusCode'', JInt 404)]) \<and>
   counter_value (http_request_counter (registry (snd (service_a gen unmatched w (GET ''/notFound'')))))
        [''GET'', ''/notFound'', ''404''] =
     counter_value (http_request_counter (registry w)) [''GET'', ''/notFound'', ''404''] + 1"
proof -
  let ?resp = "JSONResponse 404 [(''error'', JStr ''Not Found''), (''statusCode'', JInt 404)]"
  have r: "router gen unmatched (snd (time_time w)) (GET ''/notFound'') =
      (Returned ?resp, snd (time_time w))"
    by (simp add: router_def GET_def not_found_def)
  have l: "[req_method (GET ''/notFound''), path (GET ''/notFound''), str (status_code ?resp)] =
      [''GET'', ''/notFound'', ''404'']"
    by (simp add: GET_def JSONResponse_def str_def digit_def)
  show ?thesis
    using service_a_Returned [of gen unmatched w "GET ''/notFound''" ?resp "snd (time_time w)", OF r]
    unfolding l by (simp add: counter_value_inc time_time_def)
qed

text \<open>
  Claim C10. A scrape goes through the middleware like any other request: whenever the
  serializer returns a document, \<^verbatim>\<open>GET /metrics\<close> is answered with it, and the
  registry is not what it was: the counter of (GET, /metrics, 200) is up by 1, and the
  histogram and the summary of that label instance each have one observation more.
\<close>

theorem scrape_is_observed:
  assumes "gen (registry w) = Inr doc"
  shows "\<exists>w'. service_a gen unmatched w (GET ''/metrics'') =
            (Returned (Response doc CONTENT_TYPE_LATEST), w') \<and>
     status_code (Response doc CONTENT_TYPE_LATEST) = 200 \<and>
     counter_value (http_request_counter (registry w')) [''GET'', ''/metrics'', ''200''] =
       counter_value (http_request_counter (registry w)) [''GET'', ''/metrics'', ''200''] + 1 \<and>
     hist_count (hist_child_at (request_duration_histogram (registry w')) [''GET'', ''/metrics'', ''200'']) =
       Suc (hist_count (hist_child_at (request_duration_histogram (registry w)) [''GET'', ''/metrics'', ''200''])) \<and>
     summary_count (summary_child_at (request_duration_summary (registry w')) [''GET'', ''/metrics'', ''200'']) =
       Suc (summary_count (summary_child_at (request_duration_summary (registry w)) [''GET'', ''/metrics'', ''200''])) \<and>
     registry w' \<noteq> registry w"
proof -
  let ?L = "[''GET'', ''/metrics'', ''200'']"
  let ?d = "time_source w (Suc (time_reads w)) - time_source w (time_reads w)"
  let ?reg = "(registry w)
          \<lparr>http_request_counter := inc (http_request_counter (registry w)) ?L,
           request_duration_histogram := histogram_observe (request_duration_histogram (registry w)) ?L ?d,
           request_duration_summary := summary_observe (request_duration_summary (registry w)) ?L ?d\<rparr>"
  let ?w' = "w\<lparr>time_reads := Suc (Suc (time_reads w)), registry := ?reg\<rparr>"
  have step: "service_a gen unmatched w (GET ''/metrics'') =
      (Returned (Response doc CONTENT_TYPE_LATEST), ?w')"
    using assms by (rule metrics_step)
  have c: "counter_value (http_request_counter (registry ?w')) ?L =
      counter_value (http_request_counter (registry w)) ?L + 1"
    by (simp add: counter_value_inc)
  have h: "hist_count (hist_child_at (request_duration_histogram (registry ?w')) ?L) =
      Suc (hist_count (hist_child_at (request_duration_histogram (registry w)) ?L))"
    by (simp add: hist_count_observe)
  have s: "summary_count (summary_child_at (request_duration_summary (registry ?w')) ?L) =
      Suc (summary_count (summary_child_at (request_duration_summary (registry w)) ?L))"
    by (simp add: summary_child_at_observe)
  have "registry ?w' \<noteq> registry w"
  proof
    assume "registry ?w' = registry w"
    with h show False by simp
  qed
  with step c h s show ?thesis
    by (intro exI [of _ ?w']) (simp add: Response_def)
qed

theorem scrape_is_observed_witness:
  "generate_latest sample_fmt (registry sample_world) = Inr (exposition sample_fmt initial_registry) \<and>
   (\<exists>w'. service_a (generate_latest sample_fmt) sample_unmatched sample_world (GET ''/metrics'') =
            (Returned (Response (exposition sample_fmt initial_registry) CONTENT_TYPE_LATEST), w') \<and>
     counter_value (http_request_counter (registry w')) [''GET'', ''/metrics'', ''200''] = 1 \<and>
     hist_count (hist_child_at (request_duration_histogram (registry w')) [''GET'', ''/metrics'', ''200'']) = 1 \<and>
     summary_count (summary_child_at (request_duration_summary (registry w')) [''GET'', ''/metrics'', ''200'']) = 1 \<and>
     registry w' \<noteq> initial_registry)"
proof -
  have reg: "registry sample_world = initial_registry"
    by (simp add: sample_world_def initial_world_def)
  have hyp: "generate_latest sample_fmt (registry sample_world) = Inr (exposition sample_fmt initial_registry)"
    by (simp add: generate_latest_def reg)
  from scrape_is_observed [of "generate_latest sample_fmt" sample_world
      "exposition sample_fmt initial_registry" sample_unmatched, OF hyp]
  obtain w' where "service_a (generate_latest sample_fmt) sample_unmatched sample_world (GET ''/metrics'') =
            (Returned (Response (exposition sample_fmt initial_registry) CONTENT_TYPE_LATEST), w')"
    "counter_value (http_request_counter (registry w')) [''GET'', ''/metrics'', ''200''] =
       counter_value (http_request_counter initial_registry) [''GET'', ''/metrics'', ''200''] + 1"
    "hist_count (hist_child_at (request_duration_histogram (registry w')) [''GET'', ''/metrics'', ''200'']) =
       Suc (hist_count (hist_child_at (request_duration_histogram initial_registry) [''GET'', ''/metrics'', ''200'']))"
    "summary_count (summary_child_at (request_duration_summary (registry w')) [''GET'', ''/metrics'', ''200'']) =
       Suc (summary_count (summary_child_at (request_duration_summary initial_registry) [''GET'', ''/metrics'', ''200'']))"
    "registry w' \<noteq> initial_registry"
    unfolding reg by blast
  then show ?thesis
    using hyp
    by (intro conjI exI [of _ w'])
       (simp_all add: initial_registry_def counter_value_def hist_child_at_def hist_empty_def
          summary_child_at_def)
qed

text \<open>What the route does when the serializer raises, at one concrete input.\<close>

theorem metrics_failure_counterexample:
  "service_a failing_serializer sample_unmatched sample_world (GET ''/metrics'') =
     (Raised (Exn ''serialization failed''), sample_world\<lparr>time_reads := 1\<rparr>)"
  by (simp add: service_a_def prometheus_middleware_def router_def GET_def metrics_def
      failing_serializer_def time_time_def sample_world_def initial_world_def)

text \<open>
  Claim C7, as amended. \<^verbatim>\<open>GET /metrics\<close> is answered with status 200 and the
  document of the serializer whenever the serializer returns one. The route has no
  handling of a failure: when the serializer raises, the exception leaves the route and
  the middleware, there is no response with status 200 and no partial document, and the
  scrape is not recorded in the registry.
\<close>

theorem metrics_outcome:
  "(\<forall>doc. gen (registry w) = Inr doc \<longrightarrow>
      fst (service_a gen unmatched w (GET ''/metrics'')) =
        Returned \<lparr>status_code = 200, media_type = CONTENT_TYPE_LATEST, content = TextBody doc\<rparr>) \<and>
   (\<forall>e. gen (registry w) = Inl e \<longrightarrow>
      service_a gen unmatched w (GET ''/metrics'') = (Raised e, w\<lparr>time_reads := Suc (time_reads w)\<rparr>))"
proof (intro conjI allI impI)
  fix doc assume "gen (registry w) = Inr doc"
  then show "fst (service_a gen unmatched w (GET ''/metrics'')) =
      Returned \<lparr>status_code = 200, media_type = CONTENT_TYPE_LATEST, content = TextBody doc\<rparr>"
    by (simp add: metrics_step Response_def)
next
  fix e assume "gen (registry w) = Inl e"
  then have "router gen unmatched (snd (time_time w)) (GET ''/metrics'') = (Raised e, snd (time_time w))"
    by (simp add: router_def GET_def metrics_def time_time_def)
  then have "service_a gen unmatched w (GET ''/metrics'') = (Raised e, snd (time_time w))"
    by (rule service_a_Raised)
  then show "service_a gen unmatched w (GET ''/metrics'') = (Raised e, w\<lparr>time_reads := Suc (time_reads w)\<rparr>)"
    by (simp add: time_time_def)
qed

theorem metrics_outcome_witness:
  "generate_latest sample_fmt (registry sample_world) = Inr (exposition sample_fmt initial_registry) \<and>
   fst (service_a (generate_latest sample_fmt) sample_unmatched sample_world (GET ''/metrics'')) =
     Returned \<lparr>status_code = 200, media_type = CONTENT_TYPE_LATEST,
               content = TextBody (exposition sample_fmt initial_registry)\<rparr> \<and>
   failing_serializer (registry sample_world) = Inl (Exn ''serialization failed'') \<and>
   service_a failing_serializer sample_unmatched sample_world (GET ''/metrics'') =
     (Raised (Exn ''serialization failed''), sample_world\<lparr>time_reads := Suc (time_reads sample_world)\<rparr>)"
  using metrics_outcome [of "generate_latest sample_fmt" sample_world sample_unmatched]
    metrics_outcome [of failing_serializer sample_world sample_unmatched]
  by (simp add: generate_latest_def failing_serializer_def sample_world_def initial_world_def)

section \<open>What a scrape shows\<close>

lemma lines_from_line:
  "CHR 0x0A \<notin> set l \<Longrightarrow> lines_from cur (l @ CHR 0x0A # rest) = (cur @ l) # lines_from [] rest"
  by (induction l arbitrary: cur) auto

lemma lines_from_after_feed:
  "set (lines_from [] rest) \<subseteq> set (lines_from cur (x @ CHR 0x0A # rest))"
proof (induction x arbitrary: cur)
  case Nil
  show ?case by auto
next
  case (Cons c x)
  show ?case
  proof (cases "c = CHR 0x0A")
    case True
    then show ?thesis using Cons.IH [of "[]"] by auto
  next
    case False
    then show ?thesis using Cons.IH [of "cur @ [c]"] by simp
  qed
qed

lemma concat_terminated_snoc:
  "pre \<noteq> [] \<Longrightarrow> \<exists>x. concat (map (\<lambda>l. l @ [CHR 0x0A]) pre) = x @ [CHR 0x0A]"
proof (induction pre rule: rev_induct)
  case Nil
  then show ?case by simp
next
  case (snoc l pre)
  show ?case by (intro exI [of _ "concat (map (\<lambda>l. l @ [CHR 0x0A]) pre) @ l"]) simp
qed

lemma line_in_document:
  assumes "l \<in> set ls" "CHR 0x0A \<notin> set l"
  shows "l \<in> set (lines_of (concat (map (\<lambda>l. l @ [CHR 0x0A]) ls)))"
proof -
  from assms(1) obtain pre post where ls: "ls = pre @ l # post"
    by (auto simp: in_set_conv_decomp)
  let ?rest = "concat (map (\<lambda>l. l @ [CHR 0x0A]) post)"
  have here: "lines_from [] (l @ CHR 0x0A # ?rest) = l # lines_from [] ?rest"
    using lines_from_line [OF assms(2), of "[]" ?rest] by simp
  show ?thesis
  proof (cases "pre = []")
    case True
    with ls here show ?thesis by (simp add: lines_of_def)
  next
    case False
    then obtain x where x: "concat (map (\<lambda>l. l @ [CHR 0x0A]) pre) = x @ [CHR 0x0A]"
      using concat_terminated_snoc by blast
    have "concat (map (\<lambda>l. l @ [CHR 0x0A]) ls) = x @ CHR 0x0A # (l @ CHR 0x0A # ?rest)"
      by (simp add: ls x)
    moreover have "l \<in> set (lines_from [] (l @ CHR 0x0A # ?rest))"
      by (simp add: here)
    ultimately show ?thesis
      using lines_from_after_feed [of "l @ CHR 0x0A # ?rest" "[]" x]
      by (auto simp: lines_of_def)
  qed
qed

lemma digit_no_feed: "d < 10 \<Longrightarrow> CHR 0x0A \<noteq> digit d"
proof -
  assume "d < 10"
  then have "d < length ''0123456789''" by simp
  then have "''0123456789'' ! d \<in> set ''0123456789''" by (rule nth_mem)
  then show ?thesis unfolding digit_def by auto
qed

lemma str_nat_no_feed: "CHR 0x0A \<notin> set (str_nat n)"
proof (induction n rule: str_nat.induct)
  case (1 n)
  show ?case
  proof (cases "n < 10")
    case True
    then show ?thesis by (subst str_nat.simps) (simp add: digit_no_feed)
  next
    case False
    have "n mod 10 < 10" by simp
    then have "CHR 0x0A \<noteq> digit (n mod 10)" by (rule digit_no_feed)
    with False "1.IH" show ?thesis by (subst str_nat.simps) (simp del: str_nat.simps)
  qed
qed

lemma str_no_feed: "CHR 0x0A \<notin> set (str i)"
  by (simp add: str_def str_nat_no_feed del: str_nat.simps)

lemma str_of_nat: "str (int k) = str_nat k"
  by (simp add: str_def del: str_nat.simps)

lemma render_of_nat: "render fmt (of_nat k) = str_nat k"
proof -
  have "quotient_of (of_nat k) = (int k, 1)"
    by (simp add: of_nat_rat quotient_of_Fract)
  then show ?thesis by (simp add: render_def str_of_nat del: str_nat.simps)
qed

lemma sample_line_request_counter:
  "sample_line ''http_requests_total'' (zip request_labels [m, p, sc]) (str_nat k) =
     request_counter_line m p sc k"
  by (simp add: sample_line_def request_labels_def quoted_def request_counter_line_def
      del: str_nat.simps)

lemma request_counter_line_no_feed:
  "CHR 0x0A \<notin> set m \<Longrightarrow> CHR 0x0A \<notin> set p \<Longrightarrow> CHR 0x0A \<notin> set sc \<Longrightarrow>
   CHR 0x0A \<notin> set (request_counter_line m p sc k)"
  by (simp add: request_counter_line_def str_nat_no_feed del: str_nat.simps)

lemma scrape_shows_counter:
  assumes "counter_value (http_request_counter (registry w)) [m, p, sc] = of_nat k" "k \<noteq> 0"
    and "CHR 0x0A \<notin> set m" "CHR 0x0A \<notin> set p" "CHR 0x0A \<notin> set sc"
  shows "\<exists>doc. fst (service_a (generate_latest fmt) unmatched w (GET ''/metrics'')) =
            Returned \<lparr>status_code = 200, media_type = CONTENT_TYPE_LATEST, content = TextBody doc\<rparr> \<and>
          request_counter_line m p sc k \<in> set (lines_of doc)"
proof -
  have nz: "(of_nat k :: rat) \<noteq> 0" using assms(2) by simp
  have "sample_line ''http_requests_total'' (zip request_labels [m, p, sc]) (render fmt (of_nat k))
      \<in> set (exposition_lines fmt (registry w))"
    using assms(1) nz by (rule counter_line_in_exposition)
  then have "request_counter_line m p sc k \<in> set (exposition_lines fmt (registry w))"
    by (simp add: render_of_nat sample_line_request_counter del: str_nat.simps)
  then have "request_counter_line m p sc k \<in> set (lines_of (exposition fmt (registry w)))"
    unfolding exposition_def
    by (rule line_in_document) (rule request_counter_line_no_feed [OF assms(3-5)])
  moreover have "fst (service_a (generate_latest fmt) unmatched w (GET ''/metrics'')) =
      Returned \<lparr>status_code = 200, media_type = CONTENT_TYPE_LATEST,
                content = TextBody (exposition fmt (registry w))\<rparr>"
    by (simp add: metrics_step [of "generate_latest fmt" w "exposition fmt (registry w)"]
        generate_latest_def Response_def)
  ultimately show ?thesis by blast
qed

lemma serve_append:
  "Exited \<notin> set (fst (serve app w rs)) \<Longrightarrow>
   serve app w (rs @ rs') =
     (fst (serve app w rs) @ fst (serve app (snd (serve app w rs)) rs'),
      snd (serve app (snd (serve app w rs)) rs'))"
proof (induction rs arbitrary: w)
  case Nil
  show ?case by simp
next
  case (Cons r rs)
  obtain outs w' where run: "serve app w (r # rs) = (outs, w')" by (cases "serve app w (r # rs)")
  from run show ?case
  proof (cases rule: serve_Cons_cases)
    case (exit w1)
    with Cons.prems run show ?thesis by simp
  next
    case (continue out w1 outs')
    from Cons.prems run continue(4) have "Exited \<notin> set outs'" by simp
    with continue(3) have "Exited \<notin> set (fst (serve app w1 rs))" by simp
    from Cons.IH [OF this] continue show ?thesis
      by (cases out) (simp_all add: case_prod_unfold Let_def)
  qed
qed

lemma requests_then_scrape:
  assumes "rs \<noteq> []" "\<forall>r \<in> set rs. req_method r = m \<and> path r = p"
    and "CHR 0x0A \<notin> set m" "CHR 0x0A \<notin> set p"
    and "fst (serve (service_a (generate_latest fmt) unmatched) (initial_world ts tm sb) rs) = map Returned resps"
    and "\<forall>x \<in> set resps. status_code x = sc"
  shows "\<exists>doc w'. serve (service_a (generate_latest fmt) unmatched) (initial_world ts tm sb)
              (rs @ [GET ''/metrics'']) =
            (map Returned resps @
               [Returned \<lparr>status_code = 200, media_type = CONTENT_TYPE_LATEST, content = TextBody doc\<rparr>], w') \<and>
          request_counter_line m p (str sc) (length rs) \<in> set (lines_of doc)"
proof -
  let ?app = "service_a (generate_latest fmt) unmatched"
  let ?init = "initial_world ts tm sb"
  let ?w = "snd (serve ?app ?init rs)"
  have run: "serve ?app ?init rs = (map Returned resps, ?w)"
    using assms(5) by (metis prod.collapse)
  have noexit: "Exited \<notin> set (map Returned resps)" by auto
  with run have "length (map Returned resps) = length rs" by (rule serve_length)
  then have len: "length resps = length rs" by simp
  have "count_list (completed rs (map Returned resps)) [m, p, str sc] = length rs"
    using len assms(2,6) by (intro completed_same_labels) auto
  with serve_service_a_counts [of "generate_latest fmt" unmatched ?init rs "[m, p, str sc]"] assms(5)
  have cnt: "counter_value (http_request_counter (registry ?w)) [m, p, str sc] = of_nat (length rs)"
    by (simp add: initial_counts)
  have "length rs \<noteq> 0" using assms(1) by simp
  from scrape_shows_counter [OF cnt this assms(3,4) str_no_feed, of fmt unmatched]
  obtain doc where scrape: "fst (?app ?w (GET ''/metrics'')) =
        Returned \<lparr>status_code = 200, media_type = CONTENT_TYPE_LATEST, content = TextBody doc\<rparr>"
    and line: "request_counter_line m p (str sc) (length rs) \<in> set (lines_of doc)"
    by blast
  have "serve ?app ?w [GET ''/metrics''] =
      ([Returned \<lparr>status_code = 200, media_type = CONTENT_TYPE_LATEST, content = TextBody doc\<rparr>],
       snd (?app ?w (GET ''/metrics'')))"
    using serve_Returned_Cons [of ?app ?w "GET ''/metrics''" _ "[]", OF scrape] by simp
  moreover have "Exited \<notin> set (fst (serve ?app ?init rs))" using assms(5) noexit by simp
  ultimately have "serve ?app ?init (rs @ [GET ''/metrics'']) =
      (map Returned resps @
         [Returned \<lparr>status_code = 200, media_type = CONTENT_TYPE_LATEST, content = TextBody doc\<rparr>],
       snd (?app ?w (GET ''/metrics'')))"
    using assms(5) by (simp add: serve_append)
  with line show ?thesis by blast
qed

lemma healthy_outcome:
  "\<exists>resp. status_code resp = 200 \<and>
     (\<forall>gen unmatched w. fst (service_a gen unmatched w (GET ''/healthy'')) = Returned resp)"
proof -
  from healthy_response obtain resp where h: "\<And>w. healthy w = (Returned resp, w)"
    and sc: "status_code resp = 200" by blast
  have "fst (service_a gen unmatched w (GET ''/healthy'')) = Returned resp" for gen unmatched w
  proof -
    have "router gen unmatched (snd (time_time w)) (GET ''/healthy'') =
        (Returned resp, snd (time_time w))"
      by (simp add: router_def GET_def h)
    from service_a_Returned [of gen unmatched w "GET ''/healthy''" resp "snd (time_time w)", OF this]
    show ?thesis by simp
  qed
  with sc show ?thesis by blast
qed

lemma not_found_outcome:
  "fst (service_a gen unmatched w (GET ''/notFound'')) =
     Returned \<lparr>status_code = 404, media_type = ''application/json'',
               content = JsonBody [(''error'', JStr ''Not Found''), (''statusCode'', JInt 404)]\<rparr>"
  using not_found_step [of gen unmatched w] by (simp add: JSONResponse_def)

text \<open>
  Claim C1. For every K: after K requests served one after the other from the initial
  state, all with the same method and path and all completed with the same status code,
  the counter of that label instance is exactly K; and when K is not zero, the
  \<^verbatim>\<open>GET /metrics\<close> that follows is answered with status 200 and a document one of
  whose lines is the sample line of that label instance with the count K (method and path
  being free of line feeds). In particular, after three \<^verbatim>\<open>GET /healthy\<close>, each
  answered with status 200, the document of the scrape has the line
  \<^verbatim>\<open>http_requests_total{method="GET",path="/healthy",status_code="200"} 3\<close>.
\<close>

theorem counter_counts_requests:
  "((\<forall>r \<in> set rs. req_method r = m \<and> path r = p) \<and>
    fst (serve (service_a gen unmatched) (initial_world ts tm sb) rs) = map Returned resps \<and>
    (\<forall>x \<in> set resps. status_code x = sc) \<longrightarrow>
    counter_value (http_request_counter
        (registry (snd (serve (service_a gen unmatched) (initial_world ts tm sb) rs)))) [m, p, str sc] =
      of_nat (length rs)) \<and>
   (rs \<noteq> [] \<and> (\<forall>r \<in> set rs. req_method r = m \<and> path r = p) \<and>
    CHR 0x0A \<notin> set m \<and> CHR 0x0A \<notin> set p \<and>
    fst (serve (service_a (generate_latest fmt) unmatched) (initial_world ts tm sb) rs) =
      map Returned resps \<and>
    (\<forall>x \<in> set resps. status_code x = sc) \<longrightarrow>
    (\<exists>doc w'.
       serve (service_a (generate_latest fmt) unmatched) (initial_world ts tm sb)
         (rs @ [GET ''/metrics'']) =
         (map Returned resps @
            [Returned \<lparr>status_code = 200, media_type = CONTENT_TYPE_LATEST, content = TextBody doc\<rparr>],
          w') \<and>
       request_counter_line m p (str sc) (length rs) \<in> set (lines_of doc))) \<and>
   (\<exists>r1 r2 r3 doc w'.
      serve (service_a (generate_latest fmt) unmatched) (initial_world ts tm sb)
        [GET ''/healthy'', GET ''/healthy'', GET ''/healthy'', GET ''/metrics''] =
        ([Returned r1, Returned r2, Returned r3,
          Returned \<lparr>status_code = 200, media_type = CONTENT_TYPE_LATEST, content = TextBody doc\<rparr>],
         w') \<and>
      status_code r1 = 200 \<and> status_code r2 = 200 \<and> status_code r3 = 200 \<and>
      healthy_line \<in> set (lines_of doc))"
proof (intro conjI impI)
  let ?app = "service_a gen unmatched"
  let ?init = "initial_world ts tm sb"
  assume hyp: "(\<forall>r \<in> set rs. req_method r = m \<and> path r = p) \<and>
    fst (serve ?app ?init rs) = map Returned resps \<and> (\<forall>x \<in> set resps. status_code x = sc)"
  have run: "serve ?app ?init rs = (map Returned resps, snd (serve ?app ?init rs))"
    using hyp by (metis prod.collapse)
  have "Exited \<notin> set (map Returned resps)" by auto
  with run have "length (map Returned resps) = length rs" by (rule serve_length)
  then have len: "length resps = length rs" by simp
  have "count_list (completed rs (map Returned resps)) [m, p, str sc] = length rs"
    using len hyp by (intro completed_same_labels) auto
  with serve_service_a_counts [of gen unmatched ?init rs "[m, p, str sc]"] hyp
  show "counter_value (http_request_counter (registry (snd (serve ?app ?init rs)))) [m, p, str sc] =
      of_nat (length rs)"
    by (simp add: initial_counts)
next
  assume "rs \<noteq> [] \<and> (\<forall>r \<in> set rs. req_method r = m \<and> path r = p) \<and>
    CHR 0x0A \<notin> set m \<and> CHR 0x0A \<notin> set p \<and>
    fst (serve (service_a (generate_latest fmt) unmatched) (initial_world ts tm sb) rs) =
      map Returned resps \<and>
    (\<forall>x \<in> set resps. status_code x = sc)"
  then show "\<exists>doc w'.
       serve (service_a (generate_latest fmt) unmatched) (initial_world ts tm sb)
         (rs @ [GET ''/metrics'']) =
         (map Returned resps @
            [Returned \<lparr>status_code = 200, media_type = CONTENT_TYPE_LATEST, content = TextBody doc\<rparr>],
          w') \<and>
       request_counter_line m p (str sc) (length rs) \<in> set (lines_of doc)"
    by (intro requests_then_scrape) simp_all
next
  let ?app = "service_a (generate_latest fmt) unmatched"
  let ?init = "initial_world ts tm sb"
  let ?h = "GET ''/healthy''"
  from healthy_outcome obtain resp where sc: "status_code resp = 200"
    and out: "\<And>w. fst (?app w ?h) = Returned resp" by blast
  have one: "fst (serve ?app w [?h]) = [Returned resp]" for w
    using serve_Returned_Cons [of ?app w ?h resp "[]", OF out] by simp
  have two: "fst (serve ?app w [?h, ?h]) = [Returned resp, Returned resp]" for w
    using serve_Returned_Cons [of ?app w ?h resp "[?h]", OF out] one by simp
  have three: "fst (serve ?app ?init [?h, ?h, ?h]) = map Returned [resp, resp, resp]"
    using serve_Returned_Cons [of ?app ?init ?h resp "[?h, ?h]", OF out] two by simp
  have "\<exists>doc w'. serve ?app ?init ([?h, ?h, ?h] @ [GET ''/metrics'']) =
         (map Returned [resp, resp, resp] @
            [Returned \<lparr>status_code = 200, media_type = CONTENT_TYPE_LATEST, content = TextBody doc\<rparr>],
          w') \<and>
       request_counter_line ''GET'' ''/healthy'' (str 200) (length [?h, ?h, ?h]) \<in> set (lines_of doc)"
    using three sc by (intro requests_then_scrape) (simp_all add: GET_def)
  moreover have "request_counter_line ''GET'' ''/healthy'' (str 200) (length [?h, ?h, ?h]) = healthy_line"
    by (simp add: request_counter_line_def healthy_line_def str_def digit_def)
  ultimately obtain doc w' where
    "serve ?app ?init [?h, ?h, ?h, GET ''/metrics''] =
       ([Returned resp, Returned resp, Returned resp,
         Returned \<lparr>status_code = 200, media_type = CONTENT_TYPE_LATEST, content = TextBody doc\<rparr>], w')"
    "healthy_line \<in> set (lines_of doc)"
    by auto
  with sc show "\<exists>r1 r2 r3 doc w'.
      serve ?app ?init [?h, ?h, ?h, GET ''/metrics''] =
        ([Returned r1, Returned r2, Returned r3,
          Returned \<lparr>status_code = 200, media_type = CONTENT_TYPE_LATEST, content = TextBody doc\<rparr>],
         w') \<and>
      status_code r1 = 200 \<and> status_code r2 = 200 \<and> status_code r3 = 200 \<and>
      healthy_line \<in> set (lines_of doc)"
    by blast
qed

text \<open>
  Claim C8. From the initial state, \<^verbatim>\<open>GET /notFound\<close> is answered with status 404
  and the JSON body with the key \<^verbatim>\<open>error\<close>; the \<^verbatim>\<open>GET /metrics\<close> that
  follows is answered with status 200 and a document one of whose lines is
  \<^verbatim>\<open>http_requests_total{method="GET",path="/notFound",status_code="404"} 1\<close>.
\<close>

theorem not_found_counted:
  "\<exists>doc w'.
     serve (service_a (generate_latest fmt) unmatched) (initial_world ts tm sb)
       [GET ''/notFound'', GET ''/metrics''] =
       ([Returned \<lparr>status_code = 404, media_type = ''application/json'',
                   content = JsonBody [(''error'', JStr ''Not Found''), (''statusCode'', JInt 404)]\<rparr>,
         Returned \<lparr>status_code = 200, media_type = CONTENT_TYPE_LATEST, content = TextBody doc\<rparr>], w') \<and>
     not_found_line \<in> set (lines_of doc)"
proof -
  let ?app = "service_a (generate_latest fmt) unmatched"
  let ?init = "initial_world ts tm sb"
  let ?nf = "\<lparr>status_code = 404, media_type = ''application/json'',
              content = JsonBody [(''error'', JStr ''Not Found''), (''statusCode'', JInt 404)]\<rparr>"
  have one: "fst (serve ?app ?init [GET ''/notFound'']) = map Returned [?nf]"
    using serve_Returned_Cons [of ?app ?init "GET ''/notFound''" ?nf "[]", OF not_found_outcome]
    by simp
  have "\<exists>doc w'. serve ?app ?init ([GET ''/notFound''] @ [GET ''/metrics'']) =
         (map Returned [?nf] @
            [Returned \<lparr>status_code = 200, media_type = CONTENT_TYPE_LATEST, content = TextBody doc\<rparr>],
          w') \<and>
       request_counter_line ''GET'' ''/notFound'' (str 404) (length [GET ''/notFound''])
         \<in> set (lines_of doc)"
    using one by (intro requests_then_scrape) (simp_all add: GET_def)
  moreover have "request_counter_line ''GET'' ''/notFound'' (str 404) (length [GET ''/notFound'']) =
      not_found_line"
    by (simp add: request_counter_line_def not_found_line_def str_def digit_def)
  ultimately show ?thesis by auto
qed

lemma declared_lines:
  "help_line ''http_requests_total'' ''Total number of HTTP requests'' \<in> set (exposition_lines fmt r)"
  "type_line ''http_requests_total'' ''counter'' \<in> set (exposition_lines fmt r)"
  "help_line ''http_request_duration_seconds'' ''Duration of HTTP requests in seconds''
     \<in> set (exposition_lines fmt r)"
  "type_line ''http_request_duration_seconds'' ''histogram'' \<in> set (exposition_lines fmt r)"
  "help_line ''http_request_duration_summary_seconds'' ''Summary of HTTP request durations''
     \<in> set (exposition_lines fmt r)"
  "type_line ''http_request_duration_summary_seconds'' ''summary'' \<in> set (exposition_lines fmt r)"
  "help_line ''node_gauge_example'' ''Example gauge tracking async task duration''
     \<in> set (exposition_lines fmt r)"
  "type_line ''node_gauge_example'' ''gauge'' \<in> set (exposition_lines fmt r)"
  unfolding exposition_lines_def counter_lines_def histogram_lines_def summary_lines_def
    gauge_lines_def
  by (simp_all only: set_append set_simps Un_iff insert_iff simp_thms)

lemma header_lines:
  "''# HELP http_requests_total Total number of HTTP requests'' \<in> set (exposition_lines fmt r)"
  "''# TYPE http_requests_total counter'' \<in> set (exposition_lines fmt r)"
  "''# HELP http_request_duration_seconds Duration of HTTP requests in seconds'' \<in> set (exposition_lines fmt r)"
  "''# TYPE http_request_duration_seconds histogram'' \<in> set (exposition_lines fmt r)"
  "''# HELP http_request_duration_summary_seconds Summary of HTTP request durations'' \<in> set (exposition_lines fmt r)"
  "''# TYPE http_request_duration_summary_seconds summary'' \<in> set (exposition_lines fmt r)"
  "''# HELP node_gauge_example Example gauge tracking async task duration'' \<in> set (exposition_lines fmt r)"
  "''# TYPE node_gauge_example gauge'' \<in> set (exposition_lines fmt r)"
  using declared_lines [of fmt r] by (simp_all add: help_line_def type_line_def)

lemma header_in_document:
  assumes "l \<in> set (exposition_lines fmt r)" "CHR 0x0A \<notin> set l"
  shows "l \<in> set (lines_of (exposition fmt r))"
  unfolding exposition_def using assms by (rule line_in_document)

lemma counter_instance_line:
  assumes "e \<in> set (http_request_counter r)"
  shows "sample_line ''http_requests_total'' (zip request_labels (fst e)) (render fmt (snd e))
     \<in> set (exposition_lines fmt r)"
proof -
  let ?line = "\<lambda>e. sample_line ''http_requests_total'' (zip request_labels (fst e)) (render fmt (snd e))"
  from assms have "?line e \<in> ?line ` set (http_request_counter r)" by (rule imageI)
  then show ?thesis by (simp add: exposition_lines_def counter_lines_def case_prod_unfold)
qed

lemma gauge_instance_line:
  assumes "e \<in> set (gauge r)"
  shows "sample_line ''node_gauge_example'' (zip [''method'', ''status''] (fst e)) (render fmt (snd e))
     \<in> set (exposition_lines fmt r)"
proof -
  let ?line = "\<lambda>e. sample_line ''node_gauge_example'' (zip [''method'', ''status''] (fst e))
      (render fmt (snd e))"
  from assms have "?line e \<in> ?line ` set (gauge r)" by (rule imageI)
  then show ?thesis by (simp add: exposition_lines_def gauge_lines_def case_prod_unfold)
qed

lemma concat_map_subset: "e \<in> set xs \<Longrightarrow> set (f e) \<subseteq> set (concat (map f xs))"
  by (induction xs) auto

lemma histogram_child_lines_subset:
  assumes "e \<in> set (request_duration_histogram r)"
  shows "set (histogram_child_lines fmt (fst e) (snd e)) \<subseteq> set (exposition_lines fmt r)"
proof -
  have "set (histogram_child_lines fmt (fst e) (snd e)) \<subseteq>
      set (concat (map (\<lambda>e. histogram_child_lines fmt (fst e) (snd e)) (request_duration_histogram r)))"
    using assms by (rule concat_map_subset)
  then have "set (histogram_child_lines fmt (fst e) (snd e)) \<subseteq>
      set (histogram_lines fmt (request_duration_histogram r))"
    unfolding histogram_lines_def case_prod_unfold by (simp only: set_simps) blast
  then show ?thesis unfolding exposition_lines_def by (simp only: set_append) blast
qed

lemma histogram_sum_count_lines:
  "sample_line ''http_request_duration_seconds_sum'' (zip request_labels ls)
      (render fmt (hist_sum h)) \<in> set (histogram_child_lines fmt ls h)"
  "sample_line ''http_request_duration_seconds_count'' (zip request_labels ls)
      (str_nat (hist_count h)) \<in> set (histogram_child_lines fmt ls h)"
  unfolding histogram_child_lines_def by (simp_all only: set_append set_simps) blast+

lemma summary_instance_lines:
  assumes "e \<in> set (request_duration_summary r)"
  shows "sample_line ''http_request_duration_summary_seconds_sum'' (zip request_labels (fst e))
           (render fmt (summary_sum (snd e))) \<in> set (exposition_lines fmt r)"
    and "sample_line ''http_request_duration_summary_seconds_count'' (zip request_labels (fst e))
           (str_nat (summary_count (snd e))) \<in> set (exposition_lines fmt r)"
proof -
  let ?two = "\<lambda>e. [sample_line ''http_request_duration_summary_seconds_sum'' (zip request_labels (fst e))
          (render fmt (summary_sum (snd e))),
        sample_line ''http_request_duration_summary_seconds_count'' (zip request_labels (fst e))
          (str_nat (summary_count (snd e)))]"
  have "set (?two e) \<subseteq> set (concat (map ?two (request_duration_summary r)))"
    using assms by (rule concat_map_subset)
  then have "set (?two e) \<subseteq> set (summary_lines fmt (request_duration_summary r))"
    unfolding summary_lines_def case_prod_unfold by (simp only: set_simps) blast
  then have sub: "set (?two e) \<subseteq> set (exposition_lines fmt r)"
    unfolding exposition_lines_def by (simp only: set_append) blast
  from sub show "sample_line ''http_request_duration_summary_seconds_sum'' (zip request_labels (fst e))
           (render fmt (summary_sum (snd e))) \<in> set (exposition_lines fmt r)"
    by (simp only: set_simps) blast
  from sub show "sample_line ''http_request_duration_summary_seconds_count'' (zip request_labels (fst e))
           (str_nat (summary_count (snd e))) \<in> set (exposition_lines fmt r)"
    by (simp only: set_simps) blast
qed

text \<open>A scrape that is not answered: the serializer raises after one request has been served.\<close>

theorem metrics_unanswered_counterexample:
  "fst (service_a failing_serializer sample_unmatched
         (snd (service_a failing_serializer sample_unmatched sample_world (GET ''/healthy'')))
         (GET ''/metrics'')) = Raised (Exn ''serialization failed'')"
  by (simp add: service_a_def prometheus_middleware_def router_def GET_def metrics_def healthy_def
      failing_serializer_def time_time_def Let_def)

text \<open>
  Claim C6, as amended. A \<^verbatim>\<open>GET /metrics\<close> for which the serializer returns a
  document is answered with status 200, the media type \<^verbatim>\<open>text/plain; version=0.0.4\<close>
  and that document as body, made from the registry as it is when the request arrives.
  The serializer of the exposition format always returns: its document is the lines of
  the registry, each ended by a line feed; among its lines are the HELP and TYPE lines of
  the four metrics, and among the lines of the registry are the sample line of every
  label instance of the counter and of the gauge and the bucket, sum and count lines of
  every label instance of the histogram and of the summary.
\<close>

theorem metrics_response:
  "(\<forall>doc. gen (registry w) = Inr doc \<longrightarrow>
      fst (service_a gen unmatched w (GET ''/metrics'')) =
        Returned \<lparr>status_code = 200, media_type = ''text/plain; version=0.0.4'',
                  content = TextBody doc\<rparr>) \<and>
   generate_latest fmt (registry w) =
     Inr (concat (map (\<lambda>l. l @ [CHR 0x0A]) (exposition_lines fmt (registry w)))) \<and>
   ''# HELP http_requests_total Total number of HTTP requests''
     \<in> set (lines_of (exposition fmt (registry w))) \<and>
   ''# TYPE http_requests_total counter'' \<in> set (lines_of (exposition fmt (registry w))) \<and>
   ''# HELP http_request_duration_seconds Duration of HTTP requests in seconds''
     \<in> set (lines_of (exposition fmt (registry w))) \<and>
   ''# TYPE http_request_duration_seconds histogram'' \<in> set (lines_of (exposition fmt (registry w))) \<and>
   ''# HELP http_request_duration_summary_seconds Summary of HTTP request durations''
     \<in> set (lines_of (exposition fmt (registry w))) \<and>
   ''# TYPE http_request_duration_summary_seconds summary''
     \<in> set (lines_of (exposition fmt (registry w))) \<and>
   ''# HELP node_gauge_example Example gauge tracking async task duration''
     \<in> set (lines_of (exposition fmt (registry w))) \<and>
   ''# TYPE node_gauge_example gauge'' \<in> set (lines_of (exposition fmt (registry w))) \<and>
   (\<forall>e \<in> set (http_request_counter (registry w)).
      sample_line ''http_requests_total'' (zip request_labels (fst e)) (render fmt (snd e))
        \<in> set (exposition_lines fmt (registry w))) \<and>
   (\<forall>e \<in> set (request_duration_histogram (registry w)).
      set (histogram_child_lines fmt (fst e) (snd e)) \<subseteq> set (exposition_lines fmt (registry w)) \<and>
      sample_line ''http_request_duration_seconds_sum'' (zip request_labels (fst e))
        (render fmt (hist_sum (snd e))) \<in> set (exposition_lines fmt (registry w)) \<and>
      sample_line ''http_request_duration_seconds_count'' (zip request_labels (fst e))
        (str_nat (hist_count (snd e))) \<in> set (exposition_lines fmt (registry w))) \<and>
   (\<forall>e \<in> set (request_duration_summary (registry w)).
      sample_line ''http_request_duration_summary_seconds_sum'' (zip request_labels (fst e))
        (render fmt (summary_sum (snd e))) \<in> set (exposition_lines fmt (registry w)) \<and>
      sample_line ''http_request_duration_summary_seconds_count'' (zip request_labels (fst e))
        (str_nat (summary_count (snd e))) \<in> set (exposition_lines fmt (registry w))) \<and>
   (\<forall>e \<in> set (gauge (registry w)).
      sample_line ''node_gauge_example'' (zip [''method'', ''status''] (fst e)) (render fmt (snd e))
        \<in> set (exposition_lines fmt (registry w)))"
proof -
  have answered: "\<forall>doc. gen (registry w) = Inr doc \<longrightarrow>
      fst (service_a gen unmatched w (GET ''/metrics'')) =
        Returned \<lparr>status_code = 200, media_type = ''text/plain; version=0.0.4'',
                  content = TextBody doc\<rparr>"
    by (simp add: metrics_step Response_def CONTENT_TYPE_LATEST_def)
  have document: "generate_latest fmt (registry w) =
      Inr (concat (map (\<lambda>l. l @ [CHR 0x0A]) (exposition_lines fmt (registry w))))"
    by (simp add: generate_latest_def exposition_def)
  have h1: "''# HELP http_requests_total Total number of HTTP requests''
      \<in> set (lines_of (exposition fmt (registry w)))"
    by (rule header_in_document [OF header_lines(1)]) simp
  have h2: "''# TYPE http_requests_total counter'' \<in> set (lines_of (exposition fmt (registry w)))"
    by (rule header_in_document [OF header_lines(2)]) simp
  have h3: "''# HELP http_request_duration_seconds Duration of HTTP requests in seconds''
      \<in> set (lines_of (exposition fmt (registry w)))"
    by (rule header_in_document [OF header_lines(3)]) simp
  have h4: "''# TYPE http_request_duration_seconds histogram''
      \<in> set (lines_of (exposition fmt (registry w)))"
    by (rule header_in_document [OF header_lines(4)]) simp
  have h5: "''# HELP http_request_duration_summary_seconds Summary of HTTP request durations''
      \<in> set (lines_of (exposition fmt (registry w)))"
    by (rule header_in_document [OF header_lines(5)]) simp
  have h6: "''# TYPE http_request_duration_summary_seconds summary''
      \<in> set (lines_of (exposition fmt (registry w)))"
    by (rule header_in_document [OF header_lines(6)]) simp
  have h7: "''# HELP node_gauge_example Example gauge tracking async task duration''
      \<in> set (lines_of (exposition fmt (registry w)))"
    by (rule header_in_document [OF header_lines(7)]) simp
  have h8: "''# TYPE node_gauge_example gauge'' \<in> set (lines_of (exposition fmt (registry w)))"
    by (rule header_in_document [OF header_lines(8)]) simp
  have c: "\<forall>e \<in> set (http_request_counter (registry w)).
      sample_line ''http_requests_total'' (zip request_labels (fst e)) (render fmt (snd e))
        \<in> set (exposition_lines fmt (registry w))"
    by (intro ballI counter_instance_line)
  have h: "\<forall>e \<in> set (request_duration_histogram (registry w)).
      set (histogram_child_lines fmt (fst e) (snd e)) \<subseteq> set (exposition_lines fmt (registry w)) \<and>
      sample_line ''http_request_duration_seconds_sum'' (zip request_labels (fst e))
        (render fmt (hist_sum (snd e))) \<in> set (exposition_lines fmt (registry w)) \<and>
      sample_line ''http_request_duration_seconds_count'' (zip request_labels (fst e))
        (str_nat (hist_count (snd e))) \<in> set (exposition_lines fmt (registry w))"
  proof (intro ballI conjI)
    fix e assume e: "e \<in> set (request_duration_histogram (registry w))"
    show sub: "set (histogram_child_lines fmt (fst e) (snd e)) \<subseteq> set (exposition_lines fmt (registry w))"
      using e by (rule histogram_child_lines_subset)
    show "sample_line ''http_request_duration_seconds_sum'' (zip request_labels (fst e))
        (render fmt (hist_sum (snd e))) \<in> set (exposition_lines fmt (registry w))"
      using sub histogram_sum_count_lines(1) [of "fst e" fmt "snd e"] by (rule subsetD)
    show "sample_line ''http_request_duration_seconds_count'' (zip request_labels (fst e))
        (str_nat (hist_count (snd e))) \<in> set (exposition_lines fmt (registry w))"
      using sub histogram_sum_count_lines(2) [of "fst e" "snd e" fmt] by (rule subsetD)
  qed
  have s: "\<forall>e \<in> set (request_duration_summary (registry w)).
      sample_line ''http_request_duration_summary_seconds_sum'' (zip request_labels (fst e))
        (render fmt (summary_sum (snd e))) \<in> set (exposition_lines fmt (registry w)) \<and>
      sample_line ''http_request_duration_summary_seconds_count'' (zip request_labels (fst e))
        (str_nat (summary_count (snd e))) \<in> set (exposition_lines fmt (registry w))"
    by (intro ballI conjI summary_instance_lines)
  have g: "\<forall>e \<in> set (gauge (registry w)).
      sample_line ''node_gauge_example'' (zip [''method'', ''status''] (fst e)) (render fmt (snd e))
        \<in> set (exposition_lines fmt (registry w))"
    by (intro ballI gauge_instance_line)
  from answered document h1 h2 h3 h4 h5 h6 h7 h8 c h s g show ?thesis
    by (intro conjI)
qed

theorem metrics_response_witness:
  "generate_latest sample_fmt (registry sample_world) =
     Inr (''# HELP http_requests_total Total number of HTTP requests'' @ [CHR 0x0A] @
          ''# TYPE http_requests_total counter'' @ [CHR 0x0A] @
          ''# HELP http_request_duration_seconds Duration of HTTP requests in seconds'' @ [CHR 0x0A] @
          ''# TYPE http_request_duration_seconds histogram'' @ [CHR 0x0A] @
          ''# HELP http_request_duration_summary_seconds Summary of HTTP request durations'' @ [CHR 0x0A] @
          ''# TYPE http_request_duration_summary_seconds summary'' @ [CHR 0x0A] @
          ''# HELP node_gauge_example Example gauge tracking async task duration'' @ [CHR 0x0A] @
          ''# TYPE node_gauge_example gauge'' @ [CHR 0x0A]) \<and>
   fst (service_a (generate_latest sample_fmt) sample_unmatched sample_world (GET ''/metrics'')) =
     Returned \<lparr>status_code = 200, media_type = ''text/plain; version=0.0.4'',
       content = TextBody
         (''# HELP http_requests_total Total number of HTTP requests'' @ [CHR 0x0A] @
          ''# TYPE http_requests_total counter'' @ [CHR 0x0A] @
          ''# HELP http_request_duration_seconds Duration of HTTP requests in seconds'' @ [CHR 0x0A] @
          ''# TYPE http_request_duration_seconds histogram'' @ [CHR 0x0A] @
          ''# HELP http_request_duration_summary_seconds Summary of HTTP request durations'' @ [CHR 0x0A] @
          ''# TYPE http_request_duration_summary_seconds summary'' @ [CHR 0x0A] @
          ''# HELP node_gauge_example Example gauge tracking async task duration'' @ [CHR 0x0A] @
          ''# TYPE node_gauge_example gauge'' @ [CHR 0x0A])\<rparr> \<and>
   ([''GET'', ''/notFound'', ''404''], 1) \<in> set (http_request_counter (registry (snd
       (service_a (generate_latest sample_fmt) sample_unmatched sample_world (GET ''/notFound''))))) \<and>
   not_found_line \<in> set (exposition_lines sample_fmt (registry (snd
       (service_a (generate_latest sample_fmt) sample_unmatched sample_world (GET ''/notFound'')))))"
proof -
  let ?doc = "''# HELP http_requests_total Total number of HTTP requests'' @ [CHR 0x0A] @
          ''# TYPE http_requests_total counter'' @ [CHR 0x0A] @
          ''# HELP http_request_duration_seconds Duration of HTTP requests in seconds'' @ [CHR 0x0A] @
          ''# TYPE http_request_duration_seconds histogram'' @ [CHR 0x0A] @
          ''# HELP http_request_duration_summary_seconds Summary of HTTP request durations'' @ [CHR 0x0A] @
          ''# TYPE http_request_duration_summary_seconds summary'' @ [CHR 0x0A] @
          ''# HELP node_gauge_example Example gauge tracking async task duration'' @ [CHR 0x0A] @
          ''# TYPE node_gauge_example gauge'' @ [CHR 0x0A]"
  let ?w1 = "snd (service_a (generate_latest sample_fmt) sample_unmatched sample_world (GET ''/notFound''))"
  have doc: "generate_latest sample_fmt (registry sample_world) = Inr ?doc"
    by (simp add: generate_latest_def exposition_def exposition_lines_def counter_lines_def
        histogram_lines_def summary_lines_def gauge_lines_def help_line_def type_line_def
        sample_world_def initial_world_def initial_registry_def)
  have entry: "([''GET'', ''/notFound'', ''404''], 1) \<in> set (http_request_counter (registry ?w1))"
    by (simp add: run_defs sample_world_def initial_world_def initial_registry_def Let_def
        inc_def counter_add_def counter_value_def)
  have line: "sample_line ''http_requests_total''
      (zip request_labels (fst ([''GET'', ''/notFound'', ''404''], 1 :: rat)))
      (render sample_fmt (snd ([''GET'', ''/notFound'', ''404''], 1 :: rat))) = not_found_line"
    by (simp add: sample_line_def request_labels_def quoted_def render_def not_found_line_def
        str_def digit_def)
  from metrics_response [of "generate_latest sample_fmt" sample_world sample_unmatched sample_fmt] doc
  have "fst (service_a (generate_latest sample_fmt) sample_unmatched sample_world (GET ''/metrics'')) =
     Returned \<lparr>status_code = 200, media_type = ''text/plain; version=0.0.4'', content = TextBody ?doc\<rparr>"
    by blast
  moreover from metrics_response [of "generate_latest sample_fmt" ?w1 sample_unmatched sample_fmt] entry
  have "sample_line ''http_requests_total''
      (zip request_labels (fst ([''GET'', ''/notFound'', ''404''], 1 :: rat)))
      (render sample_fmt (snd ([''GET'', ''/notFound'', ''404''], 1 :: rat)))
      \<in> set (exposition_lines sample_fmt (registry ?w1))"
    by blast
  ultimately show ?thesis using doc entry unfolding line by simp
qed

theorem counter_counts_requests_witness:
  "[GET ''/notFound'', GET ''/notFound''] \<noteq> [] \<and>
   req_method (GET ''/notFound'') = ''GET'' \<and> path (GET ''/notFound'') = ''/notFound'' \<and>
   CHR 0x0A \<notin> set ''GET'' \<and> CHR 0x0A \<notin> set ''/notFound'' \<and>
   fst (serve (service_a (generate_latest sample_fmt) sample_unmatched)
          (initial_world sample_clock sample_timer sample_service_b)
          [GET ''/notFound'', GET ''/notFound'']) =
     map Returned
       [JSONResponse 404 [(''error'', JStr ''Not Found''), (''statusCode'', JInt 404)],
        JSONResponse 404 [(''error'', JStr ''Not Found''), (''statusCode'', JInt 404)]] \<and>
   status_code (JSONResponse 404 [(''error'', JStr ''Not Found''), (''statusCode'', JInt 404)]) = 404 \<and>
   counter_value (http_request_counter (registry (snd
       (serve (service_a (generate_latest sample_fmt) sample_unmatched)
          (initial_world sample_clock sample_timer sample_service_b)
          [GET ''/notFound'', GET ''/notFound''])))) [''GET'', ''/notFound'', ''404''] = 2 \<and>
   (\<exists>doc w'.
      serve (service_a (generate_latest sample_fmt) sample_unmatched)
        (initial_world sample_clock sample_timer sample_service_b)
        [GET ''/notFound'', GET ''/notFound'', GET ''/metrics''] =
        ([Returned (JSONResponse 404 [(''error'', JStr ''Not Found''), (''statusCode'', JInt 404)]),
          Returned (JSONResponse 404 [(''error'', JStr ''Not Found''), (''statusCode'', JInt 404)]),
          Returned \<lparr>status_code = 200, media_type = CONTENT_TYPE_LATEST, content = TextBody doc\<rparr>], w') \<and>
      request_counter_line ''GET'' ''/notFound'' ''404'' 2 \<in> set (lines_of doc))"
proof -
  let ?nf = "JSONResponse 404 [(''error'', JStr ''Not Found''), (''statusCode'', JInt 404)]"
  let ?rs = "[GET ''/notFound'', GET ''/notFound'']"
  have run: "fst (serve (service_a (generate_latest sample_fmt) sample_unmatched)
          (initial_world sample_clock sample_timer sample_service_b) ?rs) = map Returned [?nf, ?nf]"
  proof -
    let ?app = "service_a (generate_latest sample_fmt) sample_unmatched"
    have out: "fst (?app w (GET ''/notFound'')) = Returned ?nf" for w
      using not_found_outcome [of "generate_latest sample_fmt" sample_unmatched w]
      by (simp add: JSONResponse_def)
    have one: "fst (serve ?app w [GET ''/notFound'']) = [Returned ?nf]" for w
      using serve_Returned_Cons [of ?app w "GET ''/notFound''" ?nf "[]", OF out] by simp
    show ?thesis
      using serve_Returned_Cons [of ?app _ "GET ''/notFound''" ?nf "[GET ''/notFound'']", OF out] one
      by simp
  qed
  have facts: "req_method (GET ''/notFound'') = ''GET''" "path (GET ''/notFound'') = ''/notFound''"
    "status_code ?nf = 404" "str 404 = ''404''"
    by (simp_all add: GET_def JSONResponse_def str_def digit_def)
  note inst = counter_counts_requests [of ?rs "''GET''" "''/notFound''" "generate_latest sample_fmt"
      sample_unmatched sample_clock sample_timer sample_service_b "[?nf, ?nf]" 404 sample_fmt]
  have len: "length ?rs = 2" by simp
  have counted: "counter_value (http_request_counter (registry (snd
       (serve (service_a (generate_latest sample_fmt) sample_unmatched)
          (initial_world sample_clock sample_timer sample_service_b) ?rs))))
       [''GET'', ''/notFound'', ''404''] = 2"
    using inst [THEN conjunct1] run facts unfolding len by (simp del: serve.simps)
  have shown: "\<exists>doc w'.
      serve (service_a (generate_latest sample_fmt) sample_unmatched)
        (initial_world sample_clock sample_timer sample_service_b)
        [GET ''/notFound'', GET ''/notFound'', GET ''/metrics''] =
        ([Returned ?nf, Returned ?nf,
          Returned \<lparr>status_code = 200, media_type = CONTENT_TYPE_LATEST, content = TextBody doc\<rparr>], w') \<and>
      request_counter_line ''GET'' ''/notFound'' ''404'' 2 \<in> set (lines_of doc)"
    using inst [THEN conjunct2, THEN conjunct1] run facts unfolding len by (simp del: serve.simps)
  from run facts counted shown show ?thesis by (simp del: serve.simps)
qed

theorem not_found_counted_witness:
  "\<exists>doc w'.
     serve (service_a (generate_latest sample_fmt) sample_unmatched)
       (initial_world sample_clock sample_timer sample_service_b)
       [GET ''/notFound'', GET ''/metrics''] =
       ([Returned \<lparr>status_code = 404, media_type = ''application/json'',
                   content = JsonBody [(''error'', JStr ''Not Found''), (''statusCode'', JInt 404)]\<rparr>,
         Returned \<lparr>status_code = 200, media_type = CONTENT_TYPE_LATEST, content = TextBody doc\<rparr>], w') \<and>
     not_found_line \<in> set (lines_of doc)"
  by (rule not_found_counted)

end
